theory Spec2Isabelle
  imports Main "HOL-Library.Word" "HOL-Library.AList"
begin

unbundle bit_operations_syntax

section \<open>Bytes, strings and hexadecimal text\<close>

text \<open>
  A Go \<open>[]byte\<close> is a list of 8-bit words, a Go \<open>string\<close> a list of characters.
  \<open>[]byte(s)\<close> reads the characters of \<open>s\<close> as bytes.
\<close>

type_synonym byte = "8 word"

definition bytes_of :: "string \<Rightarrow> byte list" where
  "bytes_of s = map (\<lambda>c. of_nat (of_char c)) s"

text \<open>
  \<open>hex.EncodeToString\<close> and \<open>fmt.Sprintf("%x", b)\<close>: two lower-case digits per
  byte, the high nibble first.
\<close>

definition hexdigit :: "nat \<Rightarrow> char" where
  "hexdigit d = ''0123456789abcdef'' ! (d mod 16)"

fun hex_encode :: "byte list \<Rightarrow> string" where
  "hex_encode [] = []"
| "hex_encode (b # bs) = hexdigit (unat b div 16) # hexdigit (unat b mod 16) # hex_encode bs"

text \<open>
  \<open>hex.DecodeString\<close>: digits of either case; an odd length or any other character
  is an error (\<open>None\<close>).
\<close>

definition hexval :: "char \<Rightarrow> nat option" where
  "hexval c =
     (let v = (of_char c :: nat) in
      if 48 \<le> v \<and> v \<le> 57 then Some (v - 48)
      else if 97 \<le> v \<and> v \<le> 102 then Some (v - 87)
      else if 65 \<le> v \<and> v \<le> 70 then Some (v - 55)
      else None)"

fun hex_decode :: "string \<Rightarrow> byte list option" where
  "hex_decode [] = Some []"
| "hex_decode [c] = None"
| "hex_decode (c # d # r) =
     (case (hexval c, hexval d, hex_decode r) of
        (Some h, Some l, Some bs) \<Rightarrow> Some (of_nat (16 * h + l) # bs)
      | _ \<Rightarrow> None)"

text \<open>\<open>bytes.Compare\<close>: lexicographic on bytes, a proper prefix sorting first.\<close>

fun bytes_Compare :: "byte list \<Rightarrow> byte list \<Rightarrow> int" where
  "bytes_Compare [] [] = 0"
| "bytes_Compare [] (y # ys) = -1"
| "bytes_Compare (x # xs) [] = 1"
| "bytes_Compare (x # xs) (y # ys) =
     (if x < y then -1 else if y < x then 1 else bytes_Compare xs ys)"

section \<open>The libraries the code calls\<close>

text \<open>
  The code calls three libraries that are not part of the repository, and one constant
  of the index package that is not among the sources. They are parameters of the model:
  \<^item> \<open>blake2b\<close>: \<open>blake2b.Sum256\<close>, also reached through \<open>blake2b.New256\<close>,
    \<open>Write\<close> and \<open>Sum(nil)\<close>;
  \<^item> \<open>snappy_Encode\<close>, \<open>snappy_Decode\<close>: the Snappy codec; decoding can fail;
  \<^item> \<open>PunchHole\<close>: \<open>fileutil.PunchHole f off len\<close>, the file after the call, or
    \<open>None\<close> when the call returns an error;
  \<^item> \<open>BlobPosKey\<close>: the byte that prefixes every position key of the index.
\<close>

record ext =
  blake2b :: "byte list \<Rightarrow> byte list"
  snappy_Encode :: "byte list \<Rightarrow> byte list"
  snappy_Decode :: "byte list \<Rightarrow> byte list option"
  PunchHole :: "byte list \<Rightarrow> nat \<Rightarrow> nat \<Rightarrow> byte list option"
  BlobPosKey :: byte

text \<open>
  What the theorems below need of the libraries: a digest is 32 bytes long, and Snappy
  decodes what it encoded.
\<close>

definition digest32 :: "ext \<Rightarrow> bool" where
  "digest32 E = (\<forall>x. length (blake2b E x) = 32)"

definition snappy_roundtrip :: "ext \<Rightarrow> bool" where
  "snappy_roundtrip E = (\<forall>x. snappy_Decode E (snappy_Encode E x) = Some x)"

text \<open>
  A stand-in for the libraries, to run the model on concrete inputs: the digest is the
  first 32 bytes of the zero-padded input (so two short inputs have equal digests only
  when they are equal up to trailing zeros), Snappy is a one-byte tag in front of the
  input, hole punching leaves the bytes as they are, and the position prefix is 1.
\<close>

definition pad32 :: "byte list \<Rightarrow> byte list" where
  "pad32 x = take 32 (x @ replicate 32 0)"

definition tag_Encode :: "byte list \<Rightarrow> byte list" where
  "tag_Encode x = 255 # x"

definition tag_Decode :: "byte list \<Rightarrow> byte list option" where
  "tag_Decode x = (case x of [] \<Rightarrow> None | t # r \<Rightarrow> if t = 255 then Some r else None)"

definition standin :: ext where
  "standin = \<lparr> blake2b = pad32, snappy_Encode = tag_Encode, snappy_Decode = tag_Decode,
               PunchHole = (\<lambda>f off len. Some f), BlobPosKey = 1 \<rparr>"

section \<open>The sync table (package synctable)\<close>

text \<open>
  A Go map is an association list with distinct keys: \<open>map_of\<close> is the lookup,
  \<open>AList.update\<close> the assignment \<open>m[k] = v\<close>, and the order of the list stands for
  the order in which a \<open>range\<close> loop happens to visit the map.

  A \<open>hash.Hash\<close> is the bytes written to it so far; \<open>Sum(nil)\<close> is the digest of
  these bytes.
\<close>

type_synonym ('k, 'v) gomap = "('k \<times> 'v) list"

record StateTree =
  root :: "byte list"
  level1 :: "(string, byte list) gomap"
  count :: nat

definition NewStateTree :: StateTree where
  "NewStateTree = \<lparr> root = [], level1 = [], count = 0 \<rparr>"

text \<open>
  \<open>StateTree.Add\<close>. The slice \<open>h[0:2]\<close> panics on a string shorter than two bytes:
  \<open>None\<close>.
\<close>

definition Add :: "StateTree \<Rightarrow> string \<Rightarrow> StateTree option" where
  "Add st h =
     (if length h < 2 then None
      else
        let p = take 2 h;
            chash = (case map_of (level1 st) p of Some exhash \<Rightarrow> exhash | None \<Rightarrow> [])
        in Some \<lparr> root = root st @ bytes_of h,
                  level1 = AList.update p (chash @ bytes_of h) (level1 st),
                  count = count st + 1 \<rparr>)"

definition Root :: "ext \<Rightarrow> StateTree \<Rightarrow> string" where
  "Root E st = hex_encode (blake2b E (root st))"

definition Level1 :: "ext \<Rightarrow> StateTree \<Rightarrow> (string, string) gomap" where
  "Level1 E st = map (\<lambda>(k, h). (k, hex_encode (blake2b E h))) (level1 st)"

definition Level1Prefix :: "ext \<Rightarrow> StateTree \<Rightarrow> string \<Rightarrow> string" where
  "Level1Prefix E st prefix =
     (case map_of (level1 st) prefix of Some h \<Rightarrow> hex_encode (blake2b E h) | None \<Rightarrow> [])"

text \<open>
  \<open>SyncTable.generateTree\<close>: the hashes of the namespace, as \<open>nsdb.Namespace\<close>
  returned them, added one after the other. The function takes that list.
\<close>

fun add_all :: "StateTree \<Rightarrow> string list \<Rightarrow> StateTree option" where
  "add_all st [] = Some st"
| "add_all st (h # hs) = (case Add st h of None \<Rightarrow> None | Some st' \<Rightarrow> add_all st' hs)"

definition generateTree :: "string list \<Rightarrow> StateTree option" where
  "generateTree hashes = add_all NewStateTree hashes"

record State =
  Namespace :: string
  Root_of :: string
  Count :: nat
  Leafs :: "(string, string) gomap"

text \<open>
  \<open>SyncTable.syncHandler\<close>. The request is its method and the \<open>State\<close> decoded from
  its body (\<open>None\<close> when the body does not decode: the handler panics); \<open>hashes\<close> is
  the namespace of the replica that runs the handler. The JSON object of the reply is
  the list of its keys and values.
\<close>

datatype http_reply =
  MethodNotAllowed
  | NoContent
  | OkJSON "(string \<times> string list) list"
  | HandlerPanic

fun local_loop ::
  "(string, string) gomap \<Rightarrow> (string, string) gomap \<Rightarrow> string list \<times> string list
     \<Rightarrow> string list \<times> string list" where
  "local_loop [] remote (leafsConflict, leafsToSend) = (leafsConflict, leafsToSend)"
| "local_loop ((lleaf, lh) # rest) remote (leafsConflict, leafsToSend) =
     (case map_of remote lleaf of
        Some rh \<Rightarrow>
          if lh \<noteq> rh then local_loop rest remote (leafsConflict @ [lleaf], leafsToSend)
          else local_loop rest remote (leafsConflict, leafsToSend)
      | None \<Rightarrow> local_loop rest remote (leafsConflict, leafsToSend @ [lleaf]))"

fun remote_loop ::
  "(string, string) gomap \<Rightarrow> (string, string) gomap \<Rightarrow> string list \<Rightarrow> string list" where
  "remote_loop [] loc leafsNeeded = leafsNeeded"
| "remote_loop ((rleaf, rh) # rest) loc leafsNeeded =
     (case map_of loc rleaf of
        None \<Rightarrow> remote_loop rest loc (leafsNeeded @ [rleaf])
      | Some _ \<Rightarrow> remote_loop rest loc leafsNeeded)"

definition syncHandler ::
  "ext \<Rightarrow> string list \<Rightarrow> string \<Rightarrow> string \<Rightarrow> State option \<Rightarrow> http_reply" where
  "syncHandler E hashes method ns body =
     (if method \<noteq> ''POST'' then MethodNotAllowed
      else case generateTree hashes of
        None \<Rightarrow> HandlerPanic
      | Some state \<Rightarrow>
          let local_state = \<lparr> Namespace = ns, Root_of = Root E state,
                               Count = count state, Leafs = Level1 E state \<rparr>
          in case body of
               None \<Rightarrow> HandlerPanic
             | Some remote_state \<Rightarrow>
                 if Root_of local_state = Root_of remote_state then NoContent
                 else
                   let (leafsConflict, leafsToSend) =
                         local_loop (Leafs local_state) (Leafs remote_state) ([], []);
                       leafsNeeded = remote_loop (Leafs remote_state) (Leafs local_state) []
                   in OkJSON [(''conflicted'', leafsConflict),
                              (''needed'', leafsNeeded),
                              (''missing'', leafsToSend)])"

text \<open>
  \<open>SyncResp\<close> and its decoding by \<open>encoding/json\<close>: a key of the object fills the
  field whose tag it equals, letter case aside; a field no key matches stays \<open>nil\<close>, the
  empty list. The tags are those of the struct: \<open>conflicted\<close>, \<open>nedeed\<close>, \<open>missing\<close>.
\<close>

record SyncResp =
  Conflicted :: "string list"
  Needed :: "string list"
  Missing :: "string list"

definition lower :: "char \<Rightarrow> char" where
  "lower c =
     (let v = (of_char c :: nat) in if 65 \<le> v \<and> v \<le> 90 then char_of (v + 32) else c)"

definition json_field :: "(string \<times> string list) list \<Rightarrow> string \<Rightarrow> string list" where
  "json_field obj tag =
     (case filter (\<lambda>(k, v). map lower k = map lower tag) obj of
        [] \<Rightarrow> []
      | m # ms \<Rightarrow> snd (last (m # ms)))"

definition decode_SyncResp :: "(string \<times> string list) list \<Rightarrow> SyncResp" where
  "decode_SyncResp obj =
     \<lparr> Conflicted = json_field obj ''conflicted'',
       Needed = json_field obj ''nedeed'',
       Missing = json_field obj ''missing'' \<rparr>"

text \<open>
  \<open>SyncTableClient.Sync\<close>, after the reply has arrived: the bucket prefixes whose leafs
  the client goes on to fetch (\<open>None\<close>: the call returns an error).
\<close>

definition Sync_fetches :: "http_reply \<Rightarrow> string list option" where
  "Sync_fetches reply =
     (case reply of
        NoContent \<Rightarrow> Some []
      | OkJSON obj \<Rightarrow> Some (Missing (decode_SyncResp obj))
      | _ \<Rightarrow> None)"

section \<open>The packed-file store (package blobsfile)\<close>

subsection \<open>Results, errors and failing system calls\<close>

text \<open>
  A Go function of the store returns a value, returns an error, or panics. The errors
  are told apart as far as the code tells them apart: \<open>clientutil.ErrBlobNotFound\<close>,
  the errors for which \<open>os.IsNotExist\<close> holds, and all others.
\<close>

datatype goerr = ErrBlobNotFound | ErrNotExist | ErrOther

datatype 'a result = Return 'a | Fail goerr | Panic

text \<open>
  The file system and the index can fail under the code. An operation stops at the
  first call that fails, so the environment of one operation is the call that fails in
  it, if any: \<open>None\<close> when every call succeeds. \<open>WriteFault k\<close> is a write of the frame
  that reports an error after \<open>k\<close> bytes.
\<close>

datatype fault =
  GetPosFault | SetPosFault | DeletePosFault | SetNFault | DbSeekFault
  | CloseFault | OpenFault | MagicWriteFault | SyncFault | SeekFault | ROpenFault
  | WriteFault nat | ReadAtFault | WriteAtFault

subsection \<open>Constants and the frame layout\<close>

definition magic :: "byte list" where
  "magic = 0 # bytes_of ''Blobs''"

definition Overhead :: nat where
  "Overhead = 37"

definition hashSize :: nat where
  "hashSize = 32"

definition Deleted :: byte where
  "Deleted = 1"

definition Compressed :: byte where
  "Compressed = 2"

definition Encrypted :: byte where
  "Encrypted = 4"

definition ParityChunk :: byte where
  "ParityChunk = 8"

text \<open>
  \<open>binary.LittleEndian.PutUint32(b, uint32(v))\<close>: the conversion to \<open>uint32\<close> keeps
  \<open>v mod 2^32\<close>. \<open>binary.LittleEndian.Uint32\<close> reads four bytes; every caller below
  hands it exactly four.
\<close>

definition PutUint32 :: "nat \<Rightarrow> byte list" where
  "PutUint32 v =
     (let w = v mod 2 ^ 32
      in [of_nat (w mod 256), of_nat (w div 256 mod 256),
          of_nat (w div 65536 mod 256), of_nat (w div 16777216 mod 256)])"

fun Uint32 :: "byte list \<Rightarrow> nat" where
  "Uint32 (a # b # c # d # r) = unat a + 256 * unat b + 65536 * unat c + 16777216 * unat d"
| "Uint32 r = 0"

text \<open>
  Positional file access on the bytes of a file. \<open>ReadAt\<close> of \<open>len\<close> bytes fails (with
  \<open>io.EOF\<close>) when the file ends before; \<open>WriteAt\<close> overwrites, and extends the file
  with zeros when it starts beyond the end.
\<close>

definition pread :: "byte list \<Rightarrow> nat \<Rightarrow> nat \<Rightarrow> byte list option" where
  "pread f off len = (if off + len \<le> length f then Some (take len (drop off f)) else None)"

definition pwrite :: "byte list \<Rightarrow> nat \<Rightarrow> byte list \<Rightarrow> byte list" where
  "pwrite f off d = take off f @ replicate (off - length f) 0 @ d @ drop (off + length d) f"

subsection \<open>The position index\<close>

text \<open>
  \<open>BlobPos\<close> is the struct of the code (fields \<open>n\<close>, \<open>offset\<close>, \<open>size\<close>).
\<close>

record BlobPos =
  pos_n :: nat
  pos_offset :: nat
  pos_size :: nat

text \<open>
  Modelled from the spec: the index package (\<open>BlobsIndex\<close> with \<open>SetPos\<close>, \<open>GetPos\<close>,
  \<open>DeletePos\<close>, \<open>SetN\<close>, \<open>formatKey\<close> and the database under them) is not among the
  sources. The spec: a persistent ordered key-value store keyed by
  \<open>prefix_byte | hash_bytes\<close>, with separate prefixes for position records and for the
  counter \<open>n\<close>; operations set, get, delete and iteration from a key. The position
  records are kept as a list sorted by key (\<open>bytes_Compare\<close>); the counter is a field
  of its own, its key sorting before every position key. The hash arrives as
  hexadecimal text; a text that does not decode is an error.
\<close>

record BlobsIndex =
  db :: "(byte list \<times> BlobPos) list"
  meta_n :: nat

definition formatKey :: "byte \<Rightarrow> byte list \<Rightarrow> byte list" where
  "formatKey prefix bkey = prefix # bkey"

fun db_set :: "byte list \<Rightarrow> 'v \<Rightarrow> (byte list \<times> 'v) list \<Rightarrow> (byte list \<times> 'v) list" where
  "db_set k v [] = [(k, v)]"
| "db_set k v ((k', v') # r) =
     (if bytes_Compare k k' < 0 then (k, v) # (k', v') # r
      else if bytes_Compare k k' = 0 then (k, v) # r
      else (k', v') # db_set k v r)"

definition db_delete :: "byte list \<Rightarrow> (byte list \<times> 'v) list \<Rightarrow> (byte list \<times> 'v) list" where
  "db_delete k d = filter (\<lambda>(k', v). k' \<noteq> k) d"

text \<open>\<open>db.Seek\<close>: the enumerator stands on the first item whose key is not below \<open>k\<close>.\<close>

definition db_Seek :: "byte list \<Rightarrow> (byte list \<times> 'v) list \<Rightarrow> (byte list \<times> 'v) list" where
  "db_Seek k d = dropWhile (\<lambda>(k', v). bytes_Compare k' k < 0) d"

definition SetPos ::
  "ext \<Rightarrow> fault option \<Rightarrow> BlobsIndex \<Rightarrow> string \<Rightarrow> BlobPos \<Rightarrow> BlobsIndex result" where
  "SetPos E fl ix hexHash pos =
     (case hex_decode hexHash of
        None \<Rightarrow> Fail ErrOther
      | Some hash \<Rightarrow>
          if fl = Some SetPosFault then Fail ErrOther
          else Return (ix\<lparr>db := db_set (formatKey (BlobPosKey E) hash) pos (db ix)\<rparr>))"

definition GetPos ::
  "ext \<Rightarrow> fault option \<Rightarrow> BlobsIndex \<Rightarrow> string \<Rightarrow> BlobPos option result" where
  "GetPos E fl ix hexHash =
     (case hex_decode hexHash of
        None \<Rightarrow> Fail ErrOther
      | Some hash \<Rightarrow>
          if fl = Some GetPosFault then Fail ErrOther
          else Return (map_of (db ix) (formatKey (BlobPosKey E) hash)))"

definition DeletePos ::
  "ext \<Rightarrow> fault option \<Rightarrow> BlobsIndex \<Rightarrow> string \<Rightarrow> BlobsIndex result" where
  "DeletePos E fl ix hexHash =
     (case hex_decode hexHash of
        None \<Rightarrow> Fail ErrOther
      | Some hash \<Rightarrow>
          if fl = Some DeletePosFault then Fail ErrOther
          else Return (ix\<lparr>db := db_delete (formatKey (BlobPosKey E) hash) (db ix)\<rparr>))"

definition SetN :: "fault option \<Rightarrow> BlobsIndex \<Rightarrow> nat \<Rightarrow> BlobsIndex result" where
  "SetN fl ix k = (if fl = Some SetNFault then Fail ErrOther else Return (ix\<lparr>meta_n := k\<rparr>))"

subsection \<open>The backend\<close>

text \<open>
  \<open>BlobsFileBackend\<close>, with the directory it works on. The fields of the struct:
  \<open>maxBlobsFileSize\<close>, \<open>loaded\<close>, \<open>reindexMode\<close>, \<open>snappyCompression\<close>, \<open>index\<close>,
  \<open>n\<close> (here \<open>cur_n\<close>), \<open>current\<close>, \<open>size\<close> (here \<open>cur_size\<close>) and \<open>files\<close>.
  \<^item> \<open>disk\<close> is the directory: the bytes of \<open>blobs-NNNNN\<close> for each number that
    exists. \<open>allocateBlobsFile\<close> allocates nothing (its \<open>fallocate\<close> is commented out),
    so a file is as long as what was written to it.
  \<^item> \<open>current\<close> is the file open for writing: its number and the offset of its next
    sequential write; \<open>None\<close> is the \<open>nil\<close> file.
  \<^item> \<open>files\<close> maps the numbers open for reading to the offset of the handle's next
    sequential read (\<open>ReadAt\<close> does not move it).
  Sizes, offsets and numbers are natural numbers: an \<open>int\<close> or \<open>int64\<close> of the code
  that counts bytes of a file stays far below \<open>2^63\<close>. \<open>maxBlobsFileSize\<close> comes from
  the configuration and is an integer.
\<close>

record BlobsFileBackend =
  disk :: "(nat, byte list) gomap"
  maxBlobsFileSize :: int
  loaded :: bool
  reindexMode :: bool
  snappyCompression :: bool
  index :: BlobsIndex
  cur_n :: nat
  current :: "(nat \<times> nat) option"
  cur_size :: nat
  files :: "(nat, nat) gomap"

definition saveN :: "fault option \<Rightarrow> BlobsFileBackend \<Rightarrow> unit result \<times> BlobsFileBackend" where
  "saveN fl B =
     (case SetN fl (index B) (cur_n B) of
        Return ix \<Rightarrow> (Return (), B\<lparr>index := ix\<rparr>)
      | Fail e \<Rightarrow> (Fail e, B)
      | Panic \<Rightarrow> (Panic, B))"

text \<open>
  \<open>wopen\<close>: opens (and creates) container \<open>k\<close> for writing. \<open>os.Stat\<close> tells whether
  the file is new; a new file gets the magic; the handle is moved to the end of the file
  and \<open>size\<close> is that offset (0 when \<open>Seek\<close> fails).
\<close>

definition wopen :: "fault option \<Rightarrow> BlobsFileBackend \<Rightarrow> nat \<Rightarrow> unit result \<times> BlobsFileBackend" where
  "wopen fl B k =
     (if current B \<noteq> None \<and> fl = Some CloseFault then (Fail ErrOther, B)
      else if fl = Some OpenFault then (Fail ErrOther, B)
      else
        let created = (map_of (disk B) k = None);
            B1 = B\<lparr>disk := (if created then AList.update k [] (disk B) else disk B),
                   current := Some (k, 0), cur_n := k\<rparr>
        in if created \<and> fl = Some MagicWriteFault then (Fail ErrOther, B1)
           else
             let B2 = (if created
                       then B1\<lparr>disk := AList.update k magic (disk B1),
                                current := Some (k, length magic)\<rparr>
                       else B1)
             in if created \<and> fl = Some SyncFault then (Panic, B2)
                else if fl = Some SeekFault then (Fail ErrOther, B2\<lparr>cur_size := 0\<rparr>)
                else
                  let e = (case map_of (disk B2) k of Some content \<Rightarrow> length content | None \<Rightarrow> 0)
                  in (Return (), B2\<lparr>cur_size := e, current := Some (k, e)\<rparr>))"

text \<open>
  \<open>ropen\<close>: opens container \<open>k\<close> for reading, unless it is open already. The six bytes
  read must be the magic (a shorter file fails the comparison or the read); the
  handle then stands behind the magic.
\<close>

definition ropen :: "fault option \<Rightarrow> BlobsFileBackend \<Rightarrow> nat \<Rightarrow> unit result \<times> BlobsFileBackend" where
  "ropen fl B k =
     (if map_of (files B) k \<noteq> None then (Return (), B)
      else if k > length (files B) then (Fail ErrOther, B)
      else case map_of (disk B) k of
             None \<Rightarrow> (Fail ErrNotExist, B)
           | Some content \<Rightarrow>
               if fl = Some ROpenFault then (Fail ErrOther, B)
               else if take (length magic) content \<noteq> magic then (Fail ErrOther, B)
               else (Return (), B\<lparr>files := AList.update k (length magic) (files B)\<rparr>))"

text \<open>
  \<open>encodeBlob\<close>: the digest of the blob as given, a zero flags byte, the length of the
  payload as \<open>uint32\<close>, and the payload (Snappy-encoded when compression is on). It
  returns the length of the payload and the frame. \<open>blake2b.New256\<close> sums to 32 bytes.
\<close>

definition encodeBlob :: "ext \<Rightarrow> bool \<Rightarrow> byte list \<Rightarrow> nat \<times> byte list" where
  "encodeBlob E compress blob =
     (let h = blake2b E blob;
          payload = (if compress then snappy_Encode E blob else blob)
      in (length payload, h @ [0] @ PutUint32 (length payload) @ payload))"

text \<open>
  \<open>decodeBlob\<close>: \<open>size\<close> is read from the frame; the blob is \<open>size\<close> bytes, filled from
  what follows the header (zeros where the data is shorter). A Snappy error and a digest
  that differs from the first 32 bytes both panic. A slice shorter than the header panics
  in the slice expressions.
\<close>

definition decodeBlob :: "ext \<Rightarrow> bool \<Rightarrow> byte list \<Rightarrow> (nat \<times> byte list) result" where
  "decodeBlob E compress data =
     (if length data < Overhead then Panic
      else
        let sz = Uint32 (take 4 (drop (hashSize + 1) data));
            raw = take sz (drop Overhead data @ replicate sz 0)
        in case (if compress then snappy_Decode E raw else Some raw) of
             None \<Rightarrow> Panic
           | Some blob \<Rightarrow>
               if blake2b E blob \<noteq> take hashSize data then Panic
               else Return (sz, blob))"

text \<open>
  The head of \<open>Put\<close>: when the payload would take the current container beyond
  \<open>maxBlobsFileSize\<close>, a new container is opened for writing and for reading and the
  counter is saved. Every error here panics.
\<close>

definition Put_archive ::
  "fault option \<Rightarrow> BlobsFileBackend \<Rightarrow> nat \<Rightarrow> unit result \<times> BlobsFileBackend" where
  "Put_archive fl B blobSize =
     (if int (cur_size B) + int blobSize > maxBlobsFileSize B then
        let B0 = B\<lparr>cur_n := cur_n B + 1\<rparr>
        in case wopen fl B0 (cur_n B0) of
             (Return u, B1) \<Rightarrow>
               (case ropen fl B1 (cur_n B1) of
                  (Return u, B2) \<Rightarrow>
                    (case saveN fl B2 of
                       (Return u, B3) \<Rightarrow> (Return (), B3)
                     | (r, B3) \<Rightarrow> (Panic, B3))
                | (r, B2) \<Rightarrow> (Panic, B2))
           | (r, B1) \<Rightarrow> (Panic, B1)
      else (Return (), B))"

text \<open>
  \<open>current.Write\<close>: a sequential write at the offset of the handle. It returns whether
  all bytes were written without error.
\<close>

definition current_Write ::
  "fault option \<Rightarrow> BlobsFileBackend \<Rightarrow> byte list \<Rightarrow> bool \<times> BlobsFileBackend" where
  "current_Write fl B bs =
     (case current B of
        None \<Rightarrow> (False, B)
      | Some (k, c) \<Rightarrow>
          (case map_of (disk B) k of
             None \<Rightarrow> (False, B)
           | Some content \<Rightarrow>
               (case fl of
                  Some (WriteFault w) \<Rightarrow>
                    (False, B\<lparr>disk := AList.update k (pwrite content c (take w bs)) (disk B),
                              current := Some (k, c + length (take w bs))\<rparr>)
                | _ \<Rightarrow>
                    (True, B\<lparr>disk := AList.update k (pwrite content c bs) (disk B),
                             current := Some (k, c + length bs)\<rparr>))))"

text \<open>
  \<open>Put\<close>. The position is saved in the index first, then the frame is written; \<open>size\<close>
  grows by the length of the frame whatever the write returned.
\<close>

definition Put ::
  "ext \<Rightarrow> fault option \<Rightarrow> BlobsFileBackend \<Rightarrow> string \<Rightarrow> byte list
     \<Rightarrow> unit result \<times> BlobsFileBackend" where
  "Put E fl B hash data =
     (if \<not> loaded B then (Panic, B)
      else
        let enc = encodeBlob E (snappyCompression B) data;
            blobSize = fst enc;
            blobEncoded = snd enc
        in case Put_archive fl B blobSize of
             (Return u, B1) \<Rightarrow>
               (let blobPos = \<lparr>pos_n = cur_n B1, pos_offset = cur_size B1, pos_size = blobSize\<rparr>
                in case SetPos E fl (index B1) hash blobPos of
                     Return ix \<Rightarrow>
                       (case current_Write fl (B1\<lparr>index := ix\<rparr>) blobEncoded of
                          (written, B2) \<Rightarrow>
                            let B3 = B2\<lparr>cur_size := cur_size B2 + length blobEncoded\<rparr>
                            in if \<not> written then (Fail ErrOther, B3)
                               else if fl = Some SyncFault then (Panic, B3)
                               else (Return (), B3))
                   | Fail e \<Rightarrow> (Fail e, B1)
                   | Panic \<Rightarrow> (Panic, B1))
           | (r, B1) \<Rightarrow> (r, B1))"

definition Exists :: "ext \<Rightarrow> fault option \<Rightarrow> BlobsFileBackend \<Rightarrow> string \<Rightarrow> bool result" where
  "Exists E fl B hash =
     (case GetPos E fl (index B) hash of
        Return (Some blobPos) \<Rightarrow> Return True
      | Return None \<Rightarrow> Return False
      | Fail e \<Rightarrow> Fail e
      | Panic \<Rightarrow> Panic)"

definition Stat :: "ext \<Rightarrow> fault option \<Rightarrow> BlobsFileBackend \<Rightarrow> string \<Rightarrow> bool result" where
  "Stat E fl B hash = Exists E fl B hash"

text \<open>
  \<open>Get\<close>. The frame is read through the read handle of the container (a container that
  is not open is the \<open>nil\<close> file, whose \<open>ReadAt\<close> returns an error).
\<close>

definition Get :: "ext \<Rightarrow> fault option \<Rightarrow> BlobsFileBackend \<Rightarrow> string \<Rightarrow> byte list result" where
  "Get E fl B hash =
     (if \<not> loaded B then Panic
      else case GetPos E fl (index B) hash of
             Fail e \<Rightarrow> Fail ErrOther
           | Panic \<Rightarrow> Panic
           | Return None \<Rightarrow> Fail ErrBlobNotFound
           | Return (Some blobPos) \<Rightarrow>
               (case (map_of (files B) (pos_n blobPos), map_of (disk B) (pos_n blobPos)) of
                  (Some c, Some content) \<Rightarrow>
                    if fl = Some ReadAtFault then Fail ErrOther
                    else (case pread content (pos_offset blobPos) (pos_size blobPos + Overhead) of
                            None \<Rightarrow> Fail ErrOther
                          | Some data \<Rightarrow>
                              (case decodeBlob E (snappyCompression B) data of
                                 Return (blobSize, blob) \<Rightarrow>
                                   if blobSize \<noteq> pos_size blobPos then Fail ErrOther
                                   else Return blob
                               | Fail e \<Rightarrow> Fail e
                               | Panic \<Rightarrow> Panic))
                | _ \<Rightarrow> Fail ErrOther))"

text \<open>
  \<open>Delete\<close>. The handle \<open>f\<close> is the file open for writing when the blob is in the
  current container, and the container opened read-write otherwise. One byte,
  \<open>Deleted\<close>, is written at \<open>offset + hashSize\<close>; then the index entry is deleted;
  then the payload range is handed to \<open>PunchHole\<close>.
\<close>

definition Delete_handle :: "fault option \<Rightarrow> BlobsFileBackend \<Rightarrow> BlobPos \<Rightarrow> nat option" where
  "Delete_handle fl B blobPos =
     (if pos_n blobPos = cur_n B then map_option fst (current B)
      else if fl = Some OpenFault then None
      else map_option (\<lambda>content. pos_n blobPos) (map_of (disk B) (pos_n blobPos)))"

definition Delete ::
  "ext \<Rightarrow> fault option \<Rightarrow> BlobsFileBackend \<Rightarrow> string \<Rightarrow> unit result \<times> BlobsFileBackend" where
  "Delete E fl B hash =
     (if \<not> loaded B then (Panic, B)
      else case GetPos E fl (index B) hash of
             Fail e \<Rightarrow> (Fail ErrOther, B)
           | Panic \<Rightarrow> (Panic, B)
           | Return None \<Rightarrow> (Fail ErrOther, B)
           | Return (Some blobPos) \<Rightarrow>
               (case Delete_handle fl B blobPos of
                  None \<Rightarrow> (Fail ErrOther, B)
                | Some k \<Rightarrow>
                    (case map_of (disk B) k of
                       None \<Rightarrow> (Fail ErrOther, B)
                     | Some content \<Rightarrow>
                         if fl = Some WriteAtFault then (Fail ErrOther, B)
                         else
                           let marked = pwrite content (pos_offset blobPos + hashSize) [Deleted];
                               B1 = B\<lparr>disk := AList.update k marked (disk B)\<rparr>
                           in case DeletePos E fl (index B1) hash of
                                Fail e \<Rightarrow> (Fail e, B1)
                              | Panic \<Rightarrow> (Panic, B1)
                              | Return ix \<Rightarrow>
                                  (case PunchHole E marked (pos_offset blobPos + Overhead)
                                          (pos_size blobPos) of
                                     None \<Rightarrow> (Fail ErrOther, B1\<lparr>index := ix\<rparr>)
                                   | Some punched \<Rightarrow>
                                       (Return (),
                                        B1\<lparr>index := ix,
                                           disk := AList.update k punched (disk B1)\<rparr>)))))"

text \<open>
  \<open>Enumerate\<close>: every key from the first position key on, without its prefix byte, as
  hexadecimal text. The channel is the list of what was sent.
\<close>

definition Enumerate ::
  "ext \<Rightarrow> fault option \<Rightarrow> BlobsFileBackend \<Rightarrow> string list \<times> unit result" where
  "Enumerate E fl B =
     (if \<not> loaded B then ([], Panic)
      else if fl = Some DbSeekFault then ([], Fail ErrOther)
      else (map (\<lambda>(k, v). hex_encode (tl k))
              (db_Seek (formatKey (BlobPosKey E) (bytes_of [])) (db (index B))),
            Return ()))"

record SizedBlobRef =
  Hash :: string
  Size :: nat

text \<open>
  The loop of \<open>Enumerate2\<close> over the items of the enumerator: \<open>k\<close> is the whole key,
  prefix byte included, and \<open>endBytes\<close> the bytes of the text \<open>end\<close>. An error of
  \<open>BlobPos\<close> ends the loop with a \<open>nil\<close> error; a \<open>nil\<close> position would panic at
  \<open>blobPos.size\<close>.
\<close>

fun Enumerate2_loop ::
  "ext \<Rightarrow> fault option \<Rightarrow> BlobsIndex \<Rightarrow> byte list \<Rightarrow> int \<Rightarrow> (byte list \<times> BlobPos) list
     \<Rightarrow> int \<Rightarrow> SizedBlobRef list \<Rightarrow> SizedBlobRef list \<times> unit result" where
  "Enumerate2_loop E fl ix endBytes limit [] i sent = (sent, Return ())"
| "Enumerate2_loop E fl ix endBytes limit ((k, v) # rest) i sent =
     (let hash = hex_encode (tl k)
      in if bytes_Compare k endBytes > 0 \<or> (limit \<noteq> 0 \<and> i > limit) then (sent, Return ())
         else case GetPos E fl ix hash of
                Fail e \<Rightarrow> (sent, Return ())
              | Panic \<Rightarrow> (sent, Panic)
              | Return None \<Rightarrow> (sent, Panic)
              | Return (Some blobPos) \<Rightarrow>
                  Enumerate2_loop E fl ix endBytes limit rest (i + 1)
                    (sent @ [\<lparr>Hash = hex_encode (tl k), Size = pos_size blobPos\<rparr>]))"

definition Enumerate2 ::
  "ext \<Rightarrow> fault option \<Rightarrow> BlobsFileBackend \<Rightarrow> string \<Rightarrow> string \<Rightarrow> int
     \<Rightarrow> SizedBlobRef list \<times> unit result" where
  "Enumerate2 E fl B start endh limit =
     (if \<not> loaded B then ([], Panic)
      else case hex_decode start of
             None \<Rightarrow> ([], Fail ErrOther)
           | Some s \<Rightarrow>
               if fl = Some DbSeekFault then ([], Fail ErrOther)
               else Enumerate2_loop E fl (index B) (bytes_of endh) limit
                      (db_Seek (formatKey (BlobPosKey E) s) (db (index B))) 0 [])"

text \<open>
  The inner loop of \<open>scan\<close> over one container, from the offset of the read handle on:
  \<open>rest\<close> is what the handle has not read yet, \<open>offset\<close> the offset the loop counts.
  A sequential \<open>Read\<close> into a buffer returns \<open>io.EOF\<close> only when nothing is left;
  otherwise it fills the head of the buffer and leaves zeros behind. The loop ends at
  \<open>io.EOF\<close> on the hash; it returns an error at \<open>io.EOF\<close> on the flags or the size and
  when the payload is shorter than \<open>blobSize\<close>. A frame whose flags byte equals
  \<open>Deleted\<close> is skipped. Of the others, the frame whose payload has the digest of its
  hash field goes to \<open>iterFunc\<close> (\<open>Indexed\<close>), any other to the list \<open>corrupted\<close>
  (\<open>Corrupt\<close>). The result is these frames in the order of the file, and the error if
  the loop returned one.
\<close>

datatype scan_item = Indexed BlobPos byte string "byte list" | Corrupt BlobPos

definition read_buf :: "nat \<Rightarrow> byte list \<Rightarrow> byte list" where
  "read_buf len rest = take len (rest @ replicate len 0)"

function scan_frames ::
  "ext \<Rightarrow> bool \<Rightarrow> nat \<Rightarrow> nat \<Rightarrow> byte list \<Rightarrow> scan_item list \<times> unit result" where
  "scan_frames E compress k offset rest =
     (if rest = [] then ([], Return ())
      else if drop hashSize rest = [] then ([], Fail ErrOther)
      else if drop (hashSize + 1) rest = [] then ([], Fail ErrOther)
      else
        let blobHash = read_buf hashSize rest;
            flags = hd (drop hashSize rest);
            blobSize = Uint32 (read_buf 4 (drop (hashSize + 1) rest));
            rawBlob = take blobSize (drop Overhead rest)
        in if length (drop Overhead rest) < blobSize then ([], Fail ErrOther)
           else if flags = Deleted
             then scan_frames E compress k (offset + Overhead + blobSize)
                    (drop (Overhead + blobSize) rest)
           else
             (case (if compress then snappy_Decode E rawBlob else Some rawBlob) of
                None \<Rightarrow> ([], Fail ErrOther)
              | Some blob \<Rightarrow>
                  let blobPos = \<lparr>pos_n = k, pos_offset = offset, pos_size = blobSize\<rparr>;
                      hash = hex_encode (blake2b E blob);
                      item = (if hex_encode blobHash = hash
                              then Indexed blobPos flags hash blob else Corrupt blobPos);
                      later = scan_frames E compress k (offset + Overhead + blobSize)
                                (drop (Overhead + blobSize) rest)
                  in (item # fst later, snd later)))"
  by pat_completeness auto
termination
  by (relation "measure (\<lambda>(E, compress, k, offset, rest). length rest)")
     (auto simp: Overhead_def)

declare scan_frames.simps [simp del]

text \<open>
  \<open>New\<close> on a directory that holds no container and no index: the struct as \<open>New\<close>
  fills it (\<open>maxBlobsFileSize\<close> 0 stands for 256 MiB), then \<open>load\<close>, whose first
  \<open>ropen(0)\<close> finds no file: container 0 is opened for writing and for reading, the
  counter is saved, and the backend is loaded. \<open>New\<close> panics when \<open>load\<close> returns an
  error.
\<close>

definition defaultMaxBlobsFileSize :: int where
  "defaultMaxBlobsFileSize = 256 * 2 ^ 20"

definition New_struct :: "int \<Rightarrow> bool \<Rightarrow> BlobsFileBackend" where
  "New_struct maxsize compression =
     \<lparr> disk = [],
       maxBlobsFileSize = (if maxsize = 0 then defaultMaxBlobsFileSize else maxsize),
       loaded = False, reindexMode = True, snappyCompression = compression,
       index = \<lparr> db = [], meta_n = 0 \<rparr>,
       cur_n = 0, current = None, cur_size = 0, files = [] \<rparr>"

definition load_empty :: "fault option \<Rightarrow> BlobsFileBackend \<Rightarrow> unit result \<times> BlobsFileBackend" where
  "load_empty fl B =
     (case wopen fl B 0 of
        (Return u, B1) \<Rightarrow>
          (case ropen fl B1 0 of
             (Return u, B2) \<Rightarrow>
               (case saveN fl B2 of
                  (Return u, B3) \<Rightarrow> (Return (), B3\<lparr>loaded := True\<rparr>)
                | (r, B3) \<Rightarrow> (r, B3))
           | (r, B2) \<Rightarrow> (r, B2))
      | (r, B1) \<Rightarrow> (r, B1))"

definition New :: "fault option \<Rightarrow> int \<Rightarrow> bool \<Rightarrow> BlobsFileBackend result" where
  "New fl maxsize compression =
     (case load_empty fl (New_struct maxsize compression) of
        (Return u, B) \<Rightarrow> Return B
      | (r, B) \<Rightarrow> Panic)"

text \<open>
  The state of a loaded backend whose handle for writing is on container \<open>n\<close> at
  offset \<open>size\<close>, whose containers 0 to \<open>n\<close> exist, and where exactly these are
  open for reading. \<open>New\<close> establishes it and a \<open>Put\<close> that returns without an error
  keeps it. A \<open>Put\<close> whose write of the frame fails does not: \<open>size\<close> has grown by
  the length of the frame and the offset of the handle by the bytes written.
\<close>

definition store_inv :: "BlobsFileBackend \<Rightarrow> bool" where
  "store_inv B =
     (loaded B \<and> current B = Some (cur_n B, cur_size B) \<and>
      distinct (map fst (files B)) \<and>
      fst ` set (files B) = {0..cur_n B} \<and>
      fst ` set (disk B) = {0..cur_n B})"

text \<open>
  The state of a store on which no write has failed: \<open>store_inv\<close>, and \<open>size\<close> is the
  length of container \<open>n\<close>, so that the handle for writing stands at the end of the
  container and a write appends.
\<close>

definition store_synced :: "BlobsFileBackend \<Rightarrow> bool" where
  "store_synced B =
     (store_inv B \<and> map_option length (map_of (disk B) (cur_n B)) = Some (cur_size B))"

section \<open>Example inputs\<close>

text \<open>Three blob hashes, two of them in the bucket \<open>0a\<close>.\<close>

definition hash_a1 :: string where
  "hash_a1 = ''0a11111111111111111111111111111111111111111111111111111111111111''"

definition hash_a2 :: string where
  "hash_a2 = ''0a22222222222222222222222222222222222222222222222222222222222222''"

definition hash_b :: string where
  "hash_b = ''0b33333333333333333333333333333333333333333333333333333333333333''"

text \<open>The state a replica A posts: it holds the buckets \<open>0a\<close> and \<open>0c\<close>.\<close>

definition stateA :: State where
  "stateA = \<lparr> Namespace = ''ns'', Root_of = ''00'', Count = 2,
              Leafs = [(''0a'', ''ff''), (''0c'', ''ee'')] \<rparr>"

text \<open>
  A blob of three bytes and its key (the stand-in digest in hexadecimal); the store that
  \<open>New\<close> leaves on an empty directory with \<open>maxBlobsFileSize\<close> 50 and no
  compression; and that store after one and after two calls of \<open>Put\<close> with the blob.
\<close>

definition blob1 :: "byte list" where
  "blob1 = [1, 2, 3]"

definition hash1 :: string where
  "hash1 = ''0102030000000000000000000000000000000000000000000000000000000000''"

definition key1 :: "byte list" where
  "key1 = [1, 1, 2, 3, 0, 0, 0, 0, 0, 0, 0, 0, 0, 0, 0, 0, 0, 0, 0, 0, 0, 0, 0, 0, 0, 0, 0, 0,
           0, 0, 0, 0, 0]"

definition frame1 :: "byte list" where
  "frame1 = [1, 2, 3, 0, 0, 0, 0, 0, 0, 0, 0, 0, 0, 0, 0, 0, 0, 0, 0, 0, 0, 0, 0, 0, 0, 0, 0, 0,
             0, 0, 0, 0, 0, 3, 0, 0, 0, 1, 2, 3]"

definition store0 :: BlobsFileBackend where
  "store0 = \<lparr> disk = [(0, magic)], maxBlobsFileSize = 50, loaded = True, reindexMode = True,
               snappyCompression = False, index = \<lparr> db = [], meta_n = 0 \<rparr>,
               cur_n = 0, current = Some (0, 6), cur_size = 6, files = [(0, 6)] \<rparr>"

definition store1 :: BlobsFileBackend where
  "store1 = store0 \<lparr> disk := [(0, magic @ frame1)],
               index := \<lparr> db = [(key1, \<lparr>pos_n = 0, pos_offset = 6, pos_size = 3\<rparr>)],
                           meta_n = 0 \<rparr>,
               current := Some (0, 46), cur_size := 46 \<rparr>"

definition store2 :: BlobsFileBackend where
  "store2 = store0 \<lparr> disk := [(0, magic @ frame1 @ frame1)],
               index := \<lparr> db = [(key1, \<lparr>pos_n = 0, pos_offset = 46, pos_size = 3\<rparr>)],
                           meta_n = 0 \<rparr>,
               current := Some (0, 86), cur_size := 86 \<rparr>"

text \<open>
  The same on a store with compression and the default \<open>maxBlobsFileSize\<close>: what
  \<open>New\<close> leaves, and that store after \<open>Put\<close> of the blob.
\<close>

definition frameC1 :: "byte list" where
  "frameC1 = [1, 2, 3, 0, 0, 0, 0, 0, 0, 0, 0, 0, 0, 0, 0, 0, 0, 0, 0, 0, 0, 0, 0, 0, 0, 0, 0, 0,
              0, 0, 0, 0, 0, 4, 0, 0, 0, 255, 1, 2, 3]"

definition storeC0 :: BlobsFileBackend where
  "storeC0 = store0 \<lparr> maxBlobsFileSize := 268435456, snappyCompression := True \<rparr>"

definition storeC1 :: BlobsFileBackend where
  "storeC1 = storeC0 \<lparr> disk := [(0, magic @ frameC1)],
               index := \<lparr> db = [(key1, \<lparr>pos_n = 0, pos_offset = 6, pos_size = 4\<rparr>)],
                           meta_n = 0 \<rparr>,
               current := Some (0, 47), cur_size := 47 \<rparr>"

text \<open>
  The store \<open>store0\<close> after a \<open>Put\<close> of the blob whose write of the frame fails after
  10 bytes (a full disk); and \<open>store1\<close> with the last byte of the payload changed from
  3 to 7 on disk.
\<close>

definition storeF :: BlobsFileBackend where
  "storeF = store0 \<lparr> disk := [(0, magic @ take 10 frame1)],
               index := \<lparr> db = [(key1, \<lparr>pos_n = 0, pos_offset = 6, pos_size = 3\<rparr>)],
                           meta_n = 0 \<rparr>,
               current := Some (0, 16), cur_size := 46 \<rparr>"

definition storeX :: BlobsFileBackend where
  "storeX = store1 \<lparr> disk := [(0, magic @ frame1 [39 := 7])] \<rparr>"

text \<open>
  Two more blobs and their keys, and \<open>store1\<close> after \<open>Put\<close> of the one and then of the
  other; the second of these calls opens container 1.
\<close>

definition blob4 :: "byte list" where
  "blob4 = [4]"

definition hash4 :: string where
  "hash4 = ''0400000000000000000000000000000000000000000000000000000000000000''"

definition key4 :: "byte list" where
  "key4 = [1, 4, 0, 0, 0, 0, 0, 0, 0, 0, 0, 0, 0, 0, 0, 0, 0, 0, 0, 0, 0, 0,
           0, 0, 0, 0, 0, 0, 0, 0, 0, 0, 0]"

definition frame4 :: "byte list" where
  "frame4 = [4, 0, 0, 0, 0, 0, 0, 0, 0, 0, 0, 0, 0, 0, 0, 0, 0, 0, 0, 0, 0,
             0, 0, 0, 0, 0, 0, 0, 0, 0, 0, 0, 0, 1, 0, 0, 0, 4]"

definition blob9 :: "byte list" where
  "blob9 = [9, 9]"

definition hash9 :: string where
  "hash9 = ''0909000000000000000000000000000000000000000000000000000000000000''"

definition key9 :: "byte list" where
  "key9 = [1, 9, 9, 0, 0, 0, 0, 0, 0, 0, 0, 0, 0, 0, 0, 0, 0, 0, 0, 0, 0, 0,
           0, 0, 0, 0, 0, 0, 0, 0, 0, 0, 0]"

definition frame9 :: "byte list" where
  "frame9 = [9, 9, 0, 0, 0, 0, 0, 0, 0, 0, 0, 0, 0, 0, 0, 0, 0, 0, 0, 0, 0,
             0, 0, 0, 0, 0, 0, 0, 0, 0, 0, 0, 0, 2, 0, 0, 0, 9, 9]"

definition storeE1 :: BlobsFileBackend where
  "storeE1 = store0 \<lparr> disk := [(0, magic @ frame1 @ frame4)],
               index := \<lparr> db = [(key1, \<lparr>pos_n = 0, pos_offset = 6, pos_size = 3\<rparr>),
                                 (key4, \<lparr>pos_n = 0, pos_offset = 46, pos_size = 1\<rparr>)],
                           meta_n = 0 \<rparr>,
               current := Some (0, 84), cur_size := 84 \<rparr>"

definition storeE :: BlobsFileBackend where
  "storeE = store0 \<lparr> disk := [(0, magic @ frame1 @ frame4), (1, magic @ frame9)],
               index := \<lparr> db = [(key1, \<lparr>pos_n = 0, pos_offset = 6, pos_size = 3\<rparr>),
                                 (key4, \<lparr>pos_n = 0, pos_offset = 46, pos_size = 1\<rparr>),
                                 (key9, \<lparr>pos_n = 1, pos_offset = 6, pos_size = 2\<rparr>)],
                           meta_n = 1 \<rparr>,
               cur_n := 1, current := Some (1, 45), cur_size := 45,
               files := [(0, 6), (1, 6)] \<rparr>"

text \<open>\<open>store1\<close> after \<open>Delete\<close> of the blob.\<close>

definition storeD :: BlobsFileBackend where
  "storeD = store1 \<lparr> disk := [(0, magic @ frame1 [32 := 1])],
               index := \<lparr> db = [], meta_n = 0 \<rparr> \<rparr>"

text \<open>
  \<open>storeF\<close>, the store after the failed write, after a \<open>Put\<close> of the one-byte blob
  with no failing system call: the 38 bytes of the frame are at the offset 16 of the
  handle, and the position record holds the offset 46 that \<open>size\<close> had.
\<close>

definition storeG :: BlobsFileBackend where
  "storeG = store0 \<lparr> disk := [(0, magic @ take 10 frame1 @ frame4)],
               index := \<lparr> db = [(key1, \<lparr>pos_n = 0, pos_offset = 6, pos_size = 3\<rparr>),
                                 (key4, \<lparr>pos_n = 0, pos_offset = 46, pos_size = 1\<rparr>)],
                           meta_n = 0 \<rparr>,
               current := Some (0, 54), cur_size := 84 \<rparr>"

section \<open>Properties of the sync table\<close>

subsection \<open>What the tree hashes\<close>

lemma root_add_all: "add_all st hs = Some t \<Longrightarrow> root t = root st @ concat (map bytes_of hs)"
  by (induction hs arbitrary: st) (auto simp: Add_def Let_def split: if_splits option.splits)

text \<open>The root digests the hashes in the order of the calls of \<open>Add\<close>.\<close>

lemma Root_generateTree:
  "generateTree hs = Some t \<Longrightarrow> Root E t = hex_encode (blake2b E (concat (map bytes_of hs)))"
  using root_add_all [of NewStateTree hs t] by (simp add: generateTree_def NewStateTree_def Root_def)

lemma Add_distinct:
  "Add st h = Some t \<Longrightarrow> distinct (map fst (level1 st)) \<Longrightarrow> distinct (map fst (level1 t))"
  by (auto simp: Add_def Let_def distinct_update split: if_splits)

lemma add_all_distinct:
  "add_all st hs = Some t \<Longrightarrow> distinct (map fst (level1 st)) \<Longrightarrow> distinct (map fst (level1 t))"
  by (induction hs arbitrary: st) (auto split: option.splits dest: Add_distinct)

lemma generateTree_distinct:
  "generateTree hs = Some t \<Longrightarrow> distinct (map fst (Level1 E t))"
proof -
  assume "generateTree hs = Some t"
  then have "distinct (map fst (level1 t))"
    using add_all_distinct [of NewStateTree hs t] by (simp add: generateTree_def NewStateTree_def)
  moreover have "map fst (Level1 E t) = map fst (level1 t)"
    by (simp add: Level1_def case_prod_unfold comp_def)
  ultimately show ?thesis by simp
qed

text \<open>
  C4. The claim: root and bucket hashes do not depend on the order in which the hashes
  are added. The code digests the hashes in the order of the calls of \<open>Add\<close>
  (\<open>Root_generateTree\<close>), and \<open>generateTree\<close> adds them as \<open>nsdb.Namespace\<close>
  returned them, unsorted. Here the two hashes of bucket \<open>0a\<close> are added in both
  orders: the bytes written to the root and to the bucket are the concatenation in the
  order of insertion, not in lexicographic order, and with the stand-in digest the
  two roots and the two leaf maps differ.
\<close>

theorem StateTree_depends_on_insertion_order:
  "map_option root (generateTree [hash_a2, hash_a1]) = Some (bytes_of hash_a2 @ bytes_of hash_a1) \<and>
   map_option root (generateTree [hash_a1, hash_a2]) = Some (bytes_of hash_a1 @ bytes_of hash_a2) \<and>
   map_option level1 (generateTree [hash_a2, hash_a1]) =
     Some [(''0a'', bytes_of hash_a2 @ bytes_of hash_a1)] \<and>
   map_option level1 (generateTree [hash_a1, hash_a2]) =
     Some [(''0a'', bytes_of hash_a1 @ bytes_of hash_a2)] \<and>
   map_option (Root standin) (generateTree [hash_a2, hash_a1]) \<noteq>
     map_option (Root standin) (generateTree [hash_a1, hash_a2]) \<and>
   map_option (Level1 standin) (generateTree [hash_a2, hash_a1]) \<noteq>
     map_option (Level1 standin) (generateTree [hash_a1, hash_a2])"
  by (simp add: generateTree_def NewStateTree_def Add_def hash_a2_def hash_a1_def
      Root_def Level1_def standin_def pad32_def bytes_of_def hexdigit_def)

subsection \<open>The reply of the sync handler\<close>

lemma local_loop_eq:
  "local_loop X Y (c, s) =
     (c @ map fst (filter (\<lambda>(p, h). case map_of Y p of Some rh \<Rightarrow> h \<noteq> rh | None \<Rightarrow> False) X),
      s @ map fst (filter (\<lambda>(p, h). map_of Y p = None) X))"
  by (induction X arbitrary: c s) (auto split: option.splits)

lemma remote_loop_eq:
  "remote_loop X Y acc = acc @ map fst (filter (\<lambda>(p, h). map_of Y p = None) X)"
  by (induction X arbitrary: acc) (auto split: option.splits)

lemma set_absent:
  "set (map fst (filter (\<lambda>(p, h). map_of Y p = None) X)) = fst ` set X - fst ` set Y"
  by (force simp: map_of_eq_None_iff image_iff)

lemma set_conflict:
  "distinct (map fst X) \<Longrightarrow>
   set (map fst (filter (\<lambda>(p, h). case map_of Y p of Some rh \<Rightarrow> h \<noteq> rh | None \<Rightarrow> False) X))
     = {p. \<exists>lh rh. map_of X p = Some lh \<and> map_of Y p = Some rh \<and> lh \<noteq> rh}"
  by (force simp: image_iff split: option.splits)

lemma generateTree_example:
  "generateTree [hash_a2, hash_b] =
     Some \<lparr> root = bytes_of hash_a2 @ bytes_of hash_b,
            level1 = [(''0a'', bytes_of hash_a2), (''0b'', bytes_of hash_b)], count = 2 \<rparr>"
  by (simp add: generateTree_def NewStateTree_def Add_def hash_a2_def hash_b_def)

text \<open>
  C5, as the claim states it: \<open>missing\<close> lists the buckets of the posting replica A
  that the replying replica B lacks, \<open>needed\<close> the buckets of B that A lacks. Here A
  posts \<open>stateA\<close> (buckets \<open>0a\<close>, \<open>0c\<close>) to a replica B that holds the buckets
  \<open>0a\<close> and \<open>0b\<close>. The claim asks for \<open>missing = [0c]\<close> and \<open>needed = [0b]\<close>;
  the handler replies \<open>missing = [0b]\<close> and \<open>needed = [0c]\<close>.
\<close>

theorem syncHandler_missing_needed_counterexample:
  "syncHandler standin [hash_a2, hash_b] ''POST'' ''ns'' (Some stateA) =
     OkJSON [(''conflicted'', [''0a'']), (''needed'', [''0c'']), (''missing'', [''0b''])] \<and>
   map fst (Leafs stateA) = [''0a'', ''0c''] \<and>
   map_option (\<lambda>t. map fst (Level1 standin t)) (generateTree [hash_a2, hash_b]) = Some [''0a'', ''0b'']"
  by code_simp

text \<open>
  C5, amended. The handler runs on B: its local state is that of B (\<open>Level1 E t\<close>, the
  tree of B's hashes), the remote state is the posted \<open>A\<close>. Equal roots: 204 No
  Content. Otherwise the reply is 200 with \<open>missing\<close> the bucket prefixes of B absent
  from A (the leafs B has to send), \<open>needed\<close> the prefixes of A absent from B, and
  \<open>conflicted\<close> the prefixes of both whose bucket hashes differ.
\<close>

theorem syncHandler_reply:
  assumes gen: "generateTree hashes = Some t"
  shows "(Root E t = Root_of A \<longrightarrow> syncHandler E hashes ''POST'' ns (Some A) = NoContent) \<and>
         (Root E t \<noteq> Root_of A \<longrightarrow>
            (\<exists>c n m. syncHandler E hashes ''POST'' ns (Some A) =
                 OkJSON [(''conflicted'', c), (''needed'', n), (''missing'', m)] \<and>
               set m = fst ` set (Level1 E t) - fst ` set (Leafs A) \<and>
               set n = fst ` set (Leafs A) - fst ` set (Level1 E t) \<and>
               set c = {p. \<exists>lh rh. map_of (Level1 E t) p = Some lh \<and>
                                    map_of (Leafs A) p = Some rh \<and> lh \<noteq> rh}))"
proof -
  have d: "distinct (map fst (Level1 E t))" using gen by (rule generateTree_distinct)
  show ?thesis
    using gen set_conflict [OF d, of "Leafs A"]
    by (simp add: syncHandler_def local_loop_eq remote_loop_eq set_absent del: set_map)
qed

theorem syncHandler_reply_witness:
  "generateTree [hash_a2, hash_b] =
     Some \<lparr> root = bytes_of hash_a2 @ bytes_of hash_b,
            level1 = [(''0a'', bytes_of hash_a2), (''0b'', bytes_of hash_b)], count = 2 \<rparr> \<and>
   (\<exists>c n m. syncHandler standin [hash_a2, hash_b] ''POST'' ''ns'' (Some stateA) =
        OkJSON [(''conflicted'', c), (''needed'', n), (''missing'', m)] \<and>
      set m = {''0b''} \<and> set n = {''0c''})"
proof -
  let ?t = "\<lparr> root = bytes_of hash_a2 @ bytes_of hash_b,
            level1 = [(''0a'', bytes_of hash_a2), (''0b'', bytes_of hash_b)], count = 2 \<rparr>"
  have r: "Root standin ?t \<noteq> Root_of stateA"
    by code_simp
  have l: "fst ` set (Level1 standin ?t) = {''0a'', ''0b''}"
    by (simp add: Level1_def)
  have a: "fst ` set (Leafs stateA) = {''0a'', ''0c''}"
    by (simp add: stateA_def)
  have m: "{''0a'', ''0b''} - {''0a'', ''0c''} = {''0b''}" "{''0a'', ''0c''} - {''0a'', ''0b''} = {''0c''}"
    by auto
  have "Root standin ?t \<noteq> Root_of stateA \<longrightarrow>
        (\<exists>c n m. syncHandler standin [hash_a2, hash_b] ''POST'' ''ns'' (Some stateA) =
             OkJSON [(''conflicted'', c), (''needed'', n), (''missing'', m)] \<and>
           set m = fst ` set (Level1 standin ?t) - fst ` set (Leafs stateA) \<and>
           set n = fst ` set (Leafs stateA) - fst ` set (Level1 standin ?t) \<and>
           set c = {p. \<exists>lh rh. map_of (Level1 standin ?t) p = Some lh \<and>
                                map_of (Leafs stateA) p = Some rh \<and> lh \<noteq> rh})"
    using syncHandler_reply [OF generateTree_example, of standin stateA "''ns''"] by (rule conjunct2)
  then obtain c n m where
    s: "syncHandler standin [hash_a2, hash_b] ''POST'' ''ns'' (Some stateA) =
       OkJSON [(''conflicted'', c), (''needed'', n), (''missing'', m)]" and
    sm: "set m = fst ` set (Level1 standin ?t) - fst ` set (Leafs stateA)" and
    sn: "set n = fst ` set (Leafs stateA) - fst ` set (Level1 standin ?t)"
    using r by (elim impE exE conjE) assumption
  have "set m = {''0b''}" using sm by (simp only: l a m)
  moreover have "set n = {''0c''}" using sn by (simp only: l a m)
  ultimately have "\<exists>c n m. syncHandler standin [hash_a2, hash_b] ''POST'' ''ns'' (Some stateA) =
        OkJSON [(''conflicted'', c), (''needed'', n), (''missing'', m)] \<and>
      set m = {''0b''} \<and> set n = {''0c''}"
    using s by (intro exI conjI)
  then show ?thesis
    using generateTree_example by (intro conjI)
qed

subsection \<open>The client's decoding of the reply\<close>

text \<open>
  C10. The handler writes the list of needed buckets under the key \<open>needed\<close>; the
  client's \<open>SyncResp\<close> reads the field \<open>Needed\<close> from the key \<open>nedeed\<close>. So for
  every 200 reply of the handler the decoded \<open>Needed\<close> is empty, whatever the handler
  sent.
\<close>

theorem needed_never_decoded:
  "syncHandler E hashes method ns body = OkJSON obj \<Longrightarrow> Needed (decode_SyncResp obj) = []"
  by (auto simp: syncHandler_def decode_SyncResp_def json_field_def lower_def Let_def
      split: if_splits option.splits prod.splits)

theorem needed_never_decoded_witness:
  "syncHandler standin [hash_a2, hash_b] ''POST'' ''ns'' (Some stateA) =
     OkJSON [(''conflicted'', [''0a'']), (''needed'', [''0c'']), (''missing'', [''0b''])] \<and>
   Needed (decode_SyncResp
     [(''conflicted'', [''0a'']), (''needed'', [''0c'']), (''missing'', [''0b''])]) = [] \<and>
   Sync_fetches (syncHandler standin [hash_a2, hash_b] ''POST'' ''ns'' (Some stateA)) = Some [''0b'']"
proof -
  have r: "syncHandler standin [hash_a2, hash_b] ''POST'' ''ns'' (Some stateA) =
     OkJSON [(''conflicted'', [''0a'']), (''needed'', [''0c'']), (''missing'', [''0b''])]"
    by code_simp
  have f: "Sync_fetches (OkJSON [(''conflicted'', [''0a'']), (''needed'', [''0c'']),
             (''missing'', [''0b''])]) = Some [''0b'']"
    by code_simp
  show ?thesis
    using needed_never_decoded [OF r] r f by simp
qed

section \<open>Properties of the packed-file store\<close>

subsection \<open>Frames\<close>

lemma le32_combine:
  fixes w :: nat
  assumes "w = m0 + 256 * q1" and "q1 = m1 + 256 * q2" and "q2 = m2 + 256 * q3"
  shows "m0 + 256 * m1 + 65536 * m2 + 16777216 * q3 = w"
  using assms by simp

lemma le32_digits:
  fixes w :: nat
  assumes w: "w < 4294967296"
  shows "w mod 256 + 256 * (w div 256 mod 256) + 65536 * (w div 65536 mod 256)
           + 16777216 * (w div 16777216 mod 256) = w"
proof -
  have d2: "w div 65536 = w div 256 div 256" and d3: "w div 16777216 = w div 65536 div 256"
    by (simp_all add: div_mult2_eq [symmetric])
  have "w div 16777216 < 256" using w by (simp add: div_less_iff_less_mult)
  then have m: "w div 16777216 mod 256 = w div 16777216" by simp
  have e1: "w = w mod 256 + 256 * (w div 256)" by simp
  have e2: "w div 256 = w div 256 mod 256 + 256 * (w div 65536)" unfolding d2 by simp
  have e3: "w div 65536 = w div 65536 mod 256 + 256 * (w div 16777216)" unfolding d3 by simp
  show ?thesis unfolding m by (rule le32_combine [OF e1 e2 e3])
qed

lemma Uint32_PutUint32: "Uint32 (PutUint32 v) = v mod 2 ^ 32"
proof -
  define w where "w = v mod 2 ^ 32"
  have w: "w < 4294967296" by (simp add: w_def)
  have "Uint32 (PutUint32 v) =
      w mod 256 + 256 * (w div 256 mod 256) + 65536 * (w div 65536 mod 256)
        + 16777216 * (w div 16777216 mod 256)"
    unfolding PutUint32_def Let_def w_def [symmetric]
    by (simp add: unat_of_nat)
  also have "\<dots> = w" using w by (rule le32_digits)
  finally show ?thesis by (simp add: w_def)
qed

lemma length_PutUint32: "length (PutUint32 v) = 4"
  by (simp add: PutUint32_def Let_def)

lemma decodeBlob_frame:
  assumes h: "length hsh = 32" and b: "length payload < 2 ^ 32"
  shows "decodeBlob E compress (hsh @ [f] @ PutUint32 (length payload) @ payload) =
     (case (if compress then snappy_Decode E payload else Some payload) of
        None \<Rightarrow> Panic
      | Some blob \<Rightarrow> if blake2b E blob \<noteq> hsh then Panic else Return (length payload, blob))"
proof -
  have u: "Uint32 (PutUint32 (length payload)) = length payload"
    using b by (simp add: Uint32_PutUint32)
  show ?thesis
    using h u
    by (simp add: decodeBlob_def Overhead_def hashSize_def length_PutUint32 Let_def
        cong: if_cong option.case_cong)
qed

lemma encodeBlob_eq:
  "encodeBlob E compress blob =
     (length (if compress then snappy_Encode E blob else blob),
      blake2b E blob @ [0]
        @ PutUint32 (length (if compress then snappy_Encode E blob else blob))
        @ (if compress then snappy_Encode E blob else blob))"
  by (simp add: encodeBlob_def Let_def)

lemma decodeBlob_encodeBlob:
  assumes d: "digest32 E" and s: "compress \<Longrightarrow> snappy_roundtrip E"
    and b: "fst (encodeBlob E compress blob) < 2 ^ 32"
  shows "decodeBlob E compress (snd (encodeBlob E compress blob)) =
           Return (fst (encodeBlob E compress blob), blob)"
proof -
  have h: "length (blake2b E blob) = 32" using d by (simp add: digest32_def)
  show ?thesis
  proof (cases compress)
    case True
    then have r: "snappy_Decode E (snappy_Encode E blob) = Some blob"
      using s by (simp add: snappy_roundtrip_def)
    have "length (snappy_Encode E blob) < 2 ^ 32" using b True by (simp add: encodeBlob_eq)
    from decodeBlob_frame [OF h this, of E True 0] r True show ?thesis
      by (simp add: encodeBlob_eq)
  next
    case False
    have "length blob < 2 ^ 32" using b False by (simp add: encodeBlob_eq)
    from decodeBlob_frame [OF h this, of E False 0] False show ?thesis
      by (simp add: encodeBlob_eq)
  qed
qed

subsection \<open>Opening containers\<close>

lemma wopen_Return:
  assumes "wopen fl B k = (Return u, B1)"
  shows "cur_n B1 = k" and "current B1 = Some (k, cur_size B1)"
    and "\<exists>content. map_of (disk B1) k = Some content \<and> length content = cur_size B1 \<and>
            (map_of (disk B) k = None \<longrightarrow> content = magic)"
    and "files B1 = files B" and "index B1 = index B" and "loaded B1 = loaded B"
    and "snappyCompression B1 = snappyCompression B"
    and "maxBlobsFileSize B1 = maxBlobsFileSize B"
    and "\<And>j. j \<noteq> k \<Longrightarrow> map_of (disk B1) j = map_of (disk B) j"
  using assms
  by (auto simp: wopen_def Let_def update_conv split: if_splits option.splits)

lemma ropen_Return:
  assumes "ropen fl B k = (Return u, B1)"
  shows "map_of (files B1) k \<noteq> None" and "disk B1 = disk B" and "index B1 = index B"
    and "loaded B1 = loaded B" and "snappyCompression B1 = snappyCompression B"
    and "maxBlobsFileSize B1 = maxBlobsFileSize B" and "cur_n B1 = cur_n B"
    and "current B1 = current B" and "cur_size B1 = cur_size B"
    and "\<And>j. map_of (files B) j \<noteq> None \<Longrightarrow> map_of (files B1) j \<noteq> None"
  using assms
  by (auto simp: ropen_def Let_def update_conv split: if_splits option.splits)

lemma saveN_Return:
  assumes "saveN fl B = (Return u, B1)"
  shows "B1 = B\<lparr>index := (index B)\<lparr>meta_n := cur_n B\<rparr>\<rparr>"
  using assms by (auto simp: saveN_def SetN_def split: if_splits)

lemma map_of_keys: "map_of al k \<noteq> None \<longleftrightarrow> k \<in> fst ` set al"
  by (simp add: map_of_eq_None_iff)

lemma wopen_disk:
  "wopen fl B k = (Return u, B1) \<Longrightarrow>
     disk B1 = (if map_of (disk B) k = None then AList.update k magic (disk B) else disk B)"
  by (auto simp: wopen_def Let_def split: if_splits option.splits)

lemma wopen_keys:
  assumes "wopen fl B k = (Return u, B1)"
  shows "fst ` set (disk B1) = insert k (fst ` set (disk B))"
proof (cases "map_of (disk B) k = None")
  case True
  then show ?thesis using wopen_disk [OF assms] by (simp add: dom_update)
next
  case False
  then have "k \<in> fst ` set (disk B)" by (simp add: map_of_eq_None_iff)
  then show ?thesis using wopen_disk [OF assms] False by (simp add: insert_absorb)
qed

lemma ropen_files:
  "ropen fl B k = (Return u, B1) \<Longrightarrow>
     files B1 = (if map_of (files B) k = None then AList.update k (length magic) (files B)
                 else files B)"
  by (auto simp: ropen_def split: if_splits option.splits)

lemma ropen_keys:
  assumes "ropen fl B k = (Return u, B1)"
  shows "fst ` set (files B1) = insert k (fst ` set (files B))"
    and "distinct (map fst (files B)) \<Longrightarrow> distinct (map fst (files B1))"
proof -
  show "fst ` set (files B1) = insert k (fst ` set (files B))"
  proof (cases "map_of (files B) k = None")
    case True
    then show ?thesis using ropen_files [OF assms] by (simp add: dom_update)
  next
    case False
    then have "k \<in> fst ` set (files B)" by (simp add: map_of_eq_None_iff)
    then show ?thesis using ropen_files [OF assms] False by (simp add: insert_absorb)
  qed
  show "distinct (map fst (files B)) \<Longrightarrow> distinct (map fst (files B1))"
    using ropen_files [OF assms] by (simp add: distinct_update)
qed

lemma store_inv_length_files:
  assumes "store_inv B" shows "length (files B) = cur_n B + 1"
proof -
  have d: "distinct (map fst (files B))" and k: "set (map fst (files B)) = {0..cur_n B}"
    using assms by (simp_all add: store_inv_def)
  have "card (set (map fst (files B))) = length (map fst (files B))"
    using d by (rule distinct_card)
  then show ?thesis unfolding k by simp
qed

lemma wopen_total:
  "\<exists>B1. wopen None B k = (Return (), B1)"
  by (simp add: wopen_def Let_def)

lemma ropen_total:
  assumes "k \<le> length (files B)" and "map_of (disk B) k = Some content"
    and "take (length magic) content = magic"
  shows "\<exists>B1. ropen None B k = (Return (), B1)"
  using assms by (simp add: ropen_def)

text \<open>\<open>New\<close> on an empty directory leaves a store in the state \<open>store_inv\<close>.\<close>

lemma New_store_inv: "New None maxsize compression = Return B \<Longrightarrow> store_inv B"
  by (auto simp: New_def load_empty_def New_struct_def wopen_def ropen_def saveN_def SetN_def
      Let_def store_inv_def magic_def)

lemma Put_archive_Return:
  assumes inv: "store_inv B" and r: "Put_archive fl B sz = (Return u, B1)"
  shows "store_inv B1" and "db (index B1) = db (index B)"
    and "snappyCompression B1 = snappyCompression B"
    and "maxBlobsFileSize B1 = maxBlobsFileSize B"
proof -
  have "store_inv B1 \<and> db (index B1) = db (index B) \<and>
        snappyCompression B1 = snappyCompression B \<and> maxBlobsFileSize B1 = maxBlobsFileSize B"
  proof (cases "int (cur_size B) + int sz > maxBlobsFileSize B")
    case False
    then have "B1 = B" using r by (simp add: Put_archive_def)
    then show ?thesis using inv by simp
  next
    case True
    let ?k = "cur_n B + 1"
    let ?B0 = "B\<lparr>cur_n := ?k\<rparr>"
    obtain r1 Bw where w: "wopen fl ?B0 ?k = (r1, Bw)" by (cases "wopen fl ?B0 ?k")
    obtain r2 Br where ro: "ropen fl Bw (cur_n Bw) = (r2, Br)" by (cases "ropen fl Bw (cur_n Bw)")
    obtain r3 Bs where s: "saveN fl Br = (r3, Bs)" by (cases "saveN fl Br")
    from r True w have r1: "r1 = Return ()"
      by (auto simp: Put_archive_def Let_def split: result.splits)
    with r True w ro have r2: "r2 = Return ()"
      by (auto simp: Put_archive_def Let_def split: result.splits)
    with r True w ro s r1 have r3: "r3 = Return ()" and B1: "B1 = Bs"
      by (auto simp: Put_archive_def Let_def split: result.splits)
    note W = wopen_Return [OF w [unfolded r1]] wopen_keys [OF w [unfolded r1]]
    note R = ropen_Return [OF ro [unfolded r2]] ropen_keys [OF ro [unfolded r2]]
    note S = saveN_Return [OF s [unfolded r3]]
    have "store_inv Bs"
      using inv W(1,2,4,6,10) R(2,4,7,8,9,11,12) S
      by (auto simp: store_inv_def)
    moreover have "db (index Bs) = db (index B)" using W(5) R(3) S by simp
    moreover have "snappyCompression Bs = snappyCompression B" using W(7) R(5) S by simp
    moreover have "maxBlobsFileSize Bs = maxBlobsFileSize B" using W(8) R(6) S by simp
    ultimately show ?thesis using B1 by simp
  qed
  then show "store_inv B1" and "db (index B1) = db (index B)"
    and "snappyCompression B1 = snappyCompression B"
    and "maxBlobsFileSize B1 = maxBlobsFileSize B" by simp_all
qed

subsection \<open>The index and positional file access\<close>

lemma bytes_Compare_refl: "bytes_Compare k k = 0"
  by (induction k) simp_all

lemma bytes_Compare_eq: "bytes_Compare a b = 0 \<Longrightarrow> a = b"
  by (induction a b rule: bytes_Compare.induct) (auto split: if_splits)

lemma map_of_db_set: "map_of (db_set k v d) x = (if x = k then Some v else map_of d x)"
  by (induction d) (auto simp: bytes_Compare_refl dest: bytes_Compare_eq)

lemma keys_db_set: "fst ` set (db_set k v d) = insert k (fst ` set d)"
proof -
  have "dom (map_of (db_set k v d)) = insert k (dom (map_of d))"
    by (auto simp: map_of_db_set dom_def)
  then show ?thesis by (simp add: dom_map_of_conv_image_fst)
qed

lemma pread_pwrite: "pread (pwrite f off d) off (length d) = Some d"
  by (simp add: pread_def pwrite_def min_def)

lemma length_encodeBlob:
  "digest32 E \<Longrightarrow> length (snd (encodeBlob E c data)) = fst (encodeBlob E c data) + Overhead"
  by (simp add: encodeBlob_eq digest32_def length_PutUint32 Overhead_def)

lemma SetPos_Return:
  "SetPos E fl ix h pos = Return ix' \<Longrightarrow>
     \<exists>key. hex_decode h = Some key \<and>
           ix' = ix\<lparr>db := db_set (formatKey (BlobPosKey E) key) pos (db ix)\<rparr>"
  by (auto simp: SetPos_def split: option.splits if_splits)

lemma current_Write_True:
  assumes "current_Write fl B bs = (True, B2)"
  shows "\<exists>k c content. current B = Some (k, c) \<and> map_of (disk B) k = Some content \<and>
           B2 = B\<lparr>disk := AList.update k (pwrite content c bs) (disk B),
                  current := Some (k, c + length bs)\<rparr>"
  using assms
  by (auto simp: current_Write_def split: option.splits prod.splits fault.splits)

subsection \<open>What a successful Put leaves\<close>

lemma Put_Return:
  assumes inv: "store_inv B" and d: "digest32 E"
    and r: "Put E fl B hash data = (Return u, B')"
  shows "store_inv B' \<and> snappyCompression B' = snappyCompression B \<and>
         (\<exists>key pos content.
            hex_decode hash = Some key \<and>
            map_of (db (index B')) (formatKey (BlobPosKey E) key) = Some pos \<and>
            pos_size pos = fst (encodeBlob E (snappyCompression B) data) \<and>
            map_of (files B') (pos_n pos) \<noteq> None \<and>
            map_of (disk B') (pos_n pos) = Some content \<and>
            pread content (pos_offset pos) (pos_size pos + Overhead) =
              Some (snd (encodeBlob E (snappyCompression B) data)))"
proof -
  let ?enc = "encodeBlob E (snappyCompression B) data"
  have l: "loaded B" using inv by (simp add: store_inv_def)
  obtain ra Ba where a: "Put_archive fl B (fst ?enc) = (ra, Ba)"
    by (cases "Put_archive fl B (fst ?enc)")
  have ra: "ra = Return ()" using r l a
    by (auto simp: Put_def Let_def split: result.splits)
  note A = Put_archive_Return [OF inv a [unfolded ra]]
  let ?pos = "\<lparr>pos_n = cur_n Ba, pos_offset = cur_size Ba, pos_size = fst ?enc\<rparr>"
  obtain ix where sp: "SetPos E fl (index Ba) hash ?pos = Return ix"
    using r l a ra by (auto simp: Put_def Let_def split: result.splits)
  obtain key where key: "hex_decode hash = Some key"
    and ix: "ix = (index Ba)\<lparr>db := db_set (formatKey (BlobPosKey E) key) ?pos (db (index Ba))\<rparr>"
    using SetPos_Return [OF sp] by blast
  obtain wr B2 where cw: "current_Write fl (Ba\<lparr>index := ix\<rparr>) (snd ?enc) = (wr, B2)"
    by (cases "current_Write fl (Ba\<lparr>index := ix\<rparr>) (snd ?enc)")
  have wr: "wr" and B': "B' = B2\<lparr>cur_size := cur_size B2 + length (snd ?enc)\<rparr>"
    using r l a ra sp cw by (auto simp: Put_def Let_def split: if_splits)
  obtain k c content where cur: "current (Ba\<lparr>index := ix\<rparr>) = Some (k, c)"
    and con: "map_of (disk (Ba\<lparr>index := ix\<rparr>)) k = Some content"
    and B2: "B2 = (Ba\<lparr>index := ix\<rparr>)\<lparr>disk := AList.update k (pwrite content c (snd ?enc))
                       (disk (Ba\<lparr>index := ix\<rparr>)),
                     current := Some (k, c + length (snd ?enc))\<rparr>"
    using current_Write_True [OF cw [unfolded eqTrueI [OF wr]]] by blast
  have kc: "k = cur_n Ba" "c = cur_size Ba" using cur A(1) by (simp_all add: store_inv_def)
  have kin: "k \<in> fst ` set (disk Ba)" using con by (simp add: map_of_keys [symmetric])
  have inv': "store_inv B'"
    using A(1) kin unfolding B' B2 kc
    by (simp add: store_inv_def dom_update insert_absorb)
  have "cur_n Ba \<in> fst ` set (files Ba)" using A(1) by (simp add: store_inv_def)
  then have f: "map_of (files Ba) (cur_n Ba) \<noteq> None" by (rule map_of_keys [THEN iffD2])
  have len: "length (snd ?enc) = fst ?enc + Overhead" using d by (rule length_encodeBlob)
  have rd: "pread (pwrite content c (snd ?enc)) c (fst ?enc + Overhead) = Some (snd ?enc)"
    using pread_pwrite [of content c "snd ?enc"] by (simp add: len)
  have "map_of (db (index B')) (formatKey (BlobPosKey E) key) = Some ?pos"
    unfolding B' B2 ix by (simp add: map_of_db_set)
  moreover have "map_of (files B') (pos_n ?pos) \<noteq> None"
    unfolding B' B2 using f by simp
  moreover have "map_of (disk B') (pos_n ?pos) = Some (pwrite content c (snd ?enc))"
    unfolding B' B2 kc by (simp add: update_conv')
  moreover have "snappyCompression B' = snappyCompression B"
    unfolding B' B2 using A(3) by simp
  ultimately show ?thesis
    using inv' key rd kc by (intro conjI exI [of _ key] exI [of _ ?pos]
        exI [of _ "pwrite content c (snd ?enc)"]) simp_all
qed

lemma Put_Get:
  assumes inv: "store_inv B" and d: "digest32 E"
    and s: "snappyCompression B \<Longrightarrow> snappy_roundtrip E"
    and r: "Put E fl B hash data = (Return u, B')"
    and b: "fst (encodeBlob E (snappyCompression B) data) < 2 ^ 32"
  shows "Get E None B' hash = Return data"
proof -
  let ?enc = "encodeBlob E (snappyCompression B) data"
  from Put_Return [OF inv d r] obtain key pos content where
    inv': "store_inv B'" and c: "snappyCompression B' = snappyCompression B" and
    key: "hex_decode hash = Some key" and
    ix: "map_of (db (index B')) (formatKey (BlobPosKey E) key) = Some pos" and
    sz: "pos_size pos = fst ?enc" and
    f: "map_of (files B') (pos_n pos) \<noteq> None" and
    dk: "map_of (disk B') (pos_n pos) = Some content" and
    rd: "pread content (pos_offset pos) (pos_size pos + Overhead) = Some (snd ?enc)"
    by blast
  have l: "loaded B'" using inv' by (simp add: store_inv_def)
  have g: "GetPos E None (index B') hash = Return (Some pos)"
    using key ix by (simp add: GetPos_def)
  have dec: "decodeBlob E (snappyCompression B') (snd ?enc) = Return (fst ?enc, data)"
    unfolding c using d s b by (rule decodeBlob_encodeBlob)
  obtain cpos where f': "map_of (files B') (pos_n pos) = Some cpos" using f by blast
  show ?thesis
    by (simp add: Get_def l g f' dk rd [unfolded sz] dec sz)
qed

lemma Get_NotFound:
  assumes "loaded S" and "hex_decode h = Some key"
    and "map_of (db (index S)) (formatKey (BlobPosKey E) key) = None"
  shows "Get E None S h = Fail ErrBlobNotFound"
  using assms by (simp add: Get_def GetPos_def)

lemma Put_archive_total:
  assumes inv: "store_inv B"
  shows "\<exists>B1. Put_archive None B sz = (Return (), B1)"
proof (cases "int (cur_size B) + int sz > maxBlobsFileSize B")
  case False
  then show ?thesis by (simp add: Put_archive_def)
next
  case True
  let ?k = "cur_n B + 1"
  let ?B0 = "B\<lparr>cur_n := ?k\<rparr>"
  obtain Bw where w: "wopen None ?B0 ?k = (Return (), Bw)" using wopen_total by blast
  note W = wopen_Return [OF w]
  have "?k \<notin> fst ` set (disk ?B0)" using inv by (simp add: store_inv_def)
  then have "map_of (disk ?B0) ?k = None" by (simp add: map_of_eq_None_iff)
  with W(3) have m: "map_of (disk Bw) ?k = Some magic" by auto
  have "length (files Bw) = ?k" using W(4) store_inv_length_files [OF inv] by simp
  then have "?k \<le> length (files Bw)" by simp
  from ropen_total [OF this m] obtain Br where ro: "ropen None Bw ?k = (Return (), Br)"
    by auto
  have s: "saveN None Br = (Return (), Br\<lparr>index := (index Br)\<lparr>meta_n := cur_n Br\<rparr>\<rparr>)"
    by (simp add: saveN_def SetN_def)
  show ?thesis
    using True w W(1) ro s by (simp add: Put_archive_def Let_def)
qed

lemma Put_total:
  assumes inv: "store_inv B" and key: "hex_decode hash = Some key"
  shows "\<exists>B'. Put E None B hash data = (Return (), B')"
proof -
  let ?enc = "encodeBlob E (snappyCompression B) data"
  have l: "loaded B" using inv by (simp add: store_inv_def)
  obtain Ba where a: "Put_archive None B (fst ?enc) = (Return (), Ba)"
    using Put_archive_total [OF inv] by blast
  note A = Put_archive_Return [OF inv a]
  have cur: "current Ba = Some (cur_n Ba, cur_size Ba)" using A(1) by (simp add: store_inv_def)
  have "cur_n Ba \<in> fst ` set (disk Ba)" using A(1) by (simp add: store_inv_def)
  then obtain content where con: "map_of (disk Ba) (cur_n Ba) = Some content"
    using map_of_keys [of "disk Ba" "cur_n Ba"] by auto
  show ?thesis
    using l a key cur con
    by (simp add: Put_def Let_def SetPos_def current_Write_def)
qed

subsection \<open>The example stores\<close>

lemma length_magic: "length magic = 6"
  by (simp add: magic_def bytes_of_def)

lemma standin_simps:
  "blake2b standin = pad32" "snappy_Encode standin = tag_Encode"
  "snappy_Decode standin = tag_Decode" "PunchHole standin = (\<lambda>f off len. Some f)"
  "BlobPosKey standin = 1"
  by (simp_all add: standin_def)

lemma pad32_blob1: "pad32 blob1 = tl key1"
  by code_simp

lemma hash1_eq: "hex_encode (blake2b standin blob1) = hash1"
  by (simp add: standin_simps pad32_blob1 key1_def hash1_def hexdigit_def)

lemma hex_decode_hash1: "hex_decode hash1 = Some (tl key1)"
  by (simp add: hash1_def key1_def hexval_def)

lemma encodeBlob_blob1: "encodeBlob standin False blob1 = (3, frame1)"
proof -
  have "encodeBlob standin False blob1 = (length blob1, tl key1 @ [0] @ PutUint32 (length blob1) @ blob1)"
    by (simp add: encodeBlob_def standin_simps pad32_blob1)
  then show ?thesis
    by (simp add: key1_def blob1_def frame1_def PutUint32_def)
qed

lemma New_store0: "New None 50 False = Return store0"
  by (simp add: New_def load_empty_def New_struct_def wopen_def ropen_def saveN_def SetN_def
      store0_def Let_def length_magic)

lemma Put_store0: "Put standin None store0 hash1 blob1 = (Return (), store1)"
  by (simp add: Put_def encodeBlob_blob1 Put_archive_def SetPos_def hex_decode_hash1
      current_Write_def store0_def store1_def Let_def formatKey_def key1_def standin_simps
      pwrite_def length_magic frame1_def)

lemma Put_store1: "Put standin None store1 hash1 blob1 = (Return (), store2)"
  by (simp add: Put_def encodeBlob_blob1 Put_archive_def SetPos_def hex_decode_hash1
      current_Write_def store0_def store1_def store2_def Let_def formatKey_def key1_def
      standin_simps pwrite_def length_magic frame1_def)

subsection \<open>Where Put writes\<close>

lemma Put_archive_where:
  assumes inv: "store_inv B" and r: "Put_archive fl B sz = (Return u, B1)"
  shows "if int (cur_size B) + int sz > maxBlobsFileSize B
         then cur_n B1 = cur_n B + 1 \<and> cur_size B1 = length magic \<and>
              map_of (disk B1) (cur_n B + 1) = Some magic \<and>
              (\<forall>j. j \<noteq> cur_n B + 1 \<longrightarrow> map_of (disk B1) j = map_of (disk B) j)
         else B1 = B"
proof (cases "int (cur_size B) + int sz > maxBlobsFileSize B")
  case False
  then show ?thesis using r by (simp add: Put_archive_def)
next
  case True
  let ?k = "cur_n B + 1"
  let ?B0 = "B\<lparr>cur_n := ?k\<rparr>"
  obtain r1 Bw where w: "wopen fl ?B0 ?k = (r1, Bw)" by (cases "wopen fl ?B0 ?k")
  obtain r2 Br where ro: "ropen fl Bw (cur_n Bw) = (r2, Br)" by (cases "ropen fl Bw (cur_n Bw)")
  obtain r3 Bs where s: "saveN fl Br = (r3, Bs)" by (cases "saveN fl Br")
  from r True w have r1: "r1 = Return ()"
    by (auto simp: Put_archive_def Let_def split: result.splits)
  with r True w ro have r2: "r2 = Return ()"
    by (auto simp: Put_archive_def Let_def split: result.splits)
  with r True w ro s r1 have r3: "r3 = Return ()" and B1: "B1 = Bs"
    by (auto simp: Put_archive_def Let_def split: result.splits)
  note W = wopen_Return [OF w [unfolded r1]]
  note R = ropen_Return [OF ro [unfolded r2]]
  note S = saveN_Return [OF s [unfolded r3]]
  have "?k \<notin> fst ` set (disk ?B0)" using inv by (simp add: store_inv_def)
  then have "map_of (disk ?B0) ?k = None" by (simp add: map_of_eq_None_iff)
  with W(3) have m: "map_of (disk Bw) ?k = Some magic" and c: "cur_size Bw = length magic"
    by auto
  have "cur_n Bs = ?k" using W(1) R(7) S by simp
  moreover have "cur_size Bs = length magic" using c R(9) S by simp
  moreover have "map_of (disk Bs) ?k = Some magic" using m R(2) S by simp
  moreover have "\<forall>j. j \<noteq> ?k \<longrightarrow> map_of (disk Bs) j = map_of (disk B) j"
    using W(9) R(2) S by simp
  ultimately show ?thesis using True B1 by simp
qed

lemma Put_explicit:
  assumes inv: "store_inv B"
    and r: "Put E fl B hash data = (Return u, B')"
  shows "\<exists>Ba key content.
           Put_archive fl B (fst (encodeBlob E (snappyCompression B) data)) = (Return (), Ba) \<and>
           hex_decode hash = Some key \<and>
           map_of (disk Ba) (cur_n Ba) = Some content \<and>
           B' = Ba\<lparr>index := (index Ba)\<lparr>db := db_set (formatKey (BlobPosKey E) key)
                       \<lparr>pos_n = cur_n Ba, pos_offset = cur_size Ba,
                         pos_size = fst (encodeBlob E (snappyCompression B) data)\<rparr>
                       (db (index Ba))\<rparr>,
                   disk := AList.update (cur_n Ba)
                       (pwrite content (cur_size Ba) (snd (encodeBlob E (snappyCompression B) data)))
                       (disk Ba),
                   current := Some (cur_n Ba,
                       cur_size Ba + length (snd (encodeBlob E (snappyCompression B) data))),
                   cur_size :=
                       cur_size Ba + length (snd (encodeBlob E (snappyCompression B) data))\<rparr>"
proof -
  let ?enc = "encodeBlob E (snappyCompression B) data"
  have l: "loaded B" using inv by (simp add: store_inv_def)
  obtain ra Ba where a: "Put_archive fl B (fst ?enc) = (ra, Ba)"
    by (cases "Put_archive fl B (fst ?enc)")
  have ra: "ra = Return ()" using r l a
    by (auto simp: Put_def Let_def split: result.splits)
  note A = Put_archive_Return [OF inv a [unfolded ra]]
  let ?pos = "\<lparr>pos_n = cur_n Ba, pos_offset = cur_size Ba, pos_size = fst ?enc\<rparr>"
  obtain ix where sp: "SetPos E fl (index Ba) hash ?pos = Return ix"
    using r l a ra by (auto simp: Put_def Let_def split: result.splits)
  obtain key where key: "hex_decode hash = Some key"
    and ix: "ix = (index Ba)\<lparr>db := db_set (formatKey (BlobPosKey E) key) ?pos (db (index Ba))\<rparr>"
    using SetPos_Return [OF sp] by blast
  obtain wr B2 where cw: "current_Write fl (Ba\<lparr>index := ix\<rparr>) (snd ?enc) = (wr, B2)"
    by (cases "current_Write fl (Ba\<lparr>index := ix\<rparr>) (snd ?enc)")
  have wr: "wr" and B': "B' = B2\<lparr>cur_size := cur_size B2 + length (snd ?enc)\<rparr>"
    using r l a ra sp cw by (auto simp: Put_def Let_def split: if_splits)
  obtain k c content where cur: "current (Ba\<lparr>index := ix\<rparr>) = Some (k, c)"
    and con: "map_of (disk (Ba\<lparr>index := ix\<rparr>)) k = Some content"
    and B2: "B2 = (Ba\<lparr>index := ix\<rparr>)\<lparr>disk := AList.update k (pwrite content c (snd ?enc))
                       (disk (Ba\<lparr>index := ix\<rparr>)),
                     current := Some (k, c + length (snd ?enc))\<rparr>"
    using current_Write_True [OF cw [unfolded eqTrueI [OF wr]]] by blast
  have kc: "k = cur_n Ba" "c = cur_size Ba" using cur A(1) by (simp_all add: store_inv_def)
  have "B' = Ba\<lparr>index := (index Ba)\<lparr>db := db_set (formatKey (BlobPosKey E) key) ?pos
                       (db (index Ba))\<rparr>,
                   disk := AList.update (cur_n Ba) (pwrite content (cur_size Ba) (snd ?enc))
                       (disk Ba),
                   current := Some (cur_n Ba, cur_size Ba + length (snd ?enc)),
                   cur_size := cur_size Ba + length (snd ?enc)\<rparr>"
    unfolding B' B2 ix kc by simp
  then show ?thesis using a ra key con kc by auto
qed

text \<open>
  On a store on which no write has failed the frame is appended: to the current
  container, or to the magic of the new one.
\<close>

lemma pwrite_end: "pwrite f (length f) d = f @ d"
  by (simp add: pwrite_def)

lemma encodeBlob_nonempty: "snd (encodeBlob E c data) \<noteq> []"
  by (simp add: encodeBlob_eq)

lemma New_store_synced: "New None maxsize compression = Return B \<Longrightarrow> store_synced B"
  by (auto simp: New_def load_empty_def New_struct_def wopen_def ropen_def saveN_def SetN_def
      Let_def store_inv_def store_synced_def magic_def)

lemma Put_synced:
  assumes syn: "store_synced B"
    and r: "Put E fl B hash data = (Return u, B')"
  shows "store_synced B' \<and> snappyCompression B' = snappyCompression B \<and>
         (\<exists>key pos c0.
            hex_decode hash = Some key \<and>
            map_of (db (index B')) (formatKey (BlobPosKey E) key) = Some pos \<and>
            fst ` set (db (index B'))
              = insert (formatKey (BlobPosKey E) key) (fst ` set (db (index B))) \<and>
            cur_n B' = pos_n pos \<and> pos_offset pos = length c0 \<and>
            map_of (disk B') (pos_n pos)
              = Some (c0 @ snd (encodeBlob E (snappyCompression B) data)) \<and>
            (\<forall>j. j \<noteq> pos_n pos \<longrightarrow> map_of (disk B') j = map_of (disk B) j) \<and>
            (if int (cur_size B) + int (fst (encodeBlob E (snappyCompression B) data))
                  > maxBlobsFileSize B
             then pos_n pos = cur_n B + 1 \<and> c0 = magic \<and> map_of (disk B) (pos_n pos) = None
             else pos_n pos = cur_n B \<and> map_of (disk B) (pos_n pos) = Some c0))"
proof -
  let ?enc = "encodeBlob E (snappyCompression B) data"
  have inv: "store_inv B"
    and len: "map_option length (map_of (disk B) (cur_n B)) = Some (cur_size B)"
    using syn by (simp_all add: store_synced_def)
  from Put_explicit [OF inv r] obtain Ba key content where
    a: "Put_archive fl B (fst ?enc) = (Return (), Ba)" and
    key: "hex_decode hash = Some key" and
    con: "map_of (disk Ba) (cur_n Ba) = Some content" and
    e: "B' = Ba\<lparr>index := (index Ba)\<lparr>db := db_set (formatKey (BlobPosKey E) key)
                       \<lparr>pos_n = cur_n Ba, pos_offset = cur_size Ba, pos_size = fst ?enc\<rparr>
                       (db (index Ba))\<rparr>,
                   disk := AList.update (cur_n Ba) (pwrite content (cur_size Ba) (snd ?enc))
                       (disk Ba),
                   current := Some (cur_n Ba, cur_size Ba + length (snd ?enc)),
                   cur_size := cur_size Ba + length (snd ?enc)\<rparr>"
    by blast
  let ?pos = "\<lparr>pos_n = cur_n Ba, pos_offset = cur_size Ba, pos_size = fst ?enc\<rparr>"
  note A = Put_archive_Return [OF inv a]
  note W = Put_archive_where [OF inv a]
  have none: "map_of (disk B) (cur_n B + 1) = None"
  proof -
    have "cur_n B + 1 \<notin> fst ` set (disk B)" using inv by (simp add: store_inv_def)
    then show ?thesis by (simp add: map_of_eq_None_iff)
  qed
  have cl: "length content = cur_size Ba"
    using W con len by (auto split: if_splits)
  have wr: "pwrite content (cur_size Ba) (snd ?enc) = content @ snd ?enc"
    using pwrite_end [of content "snd ?enc"] by (simp add: cl)
  have kin: "cur_n Ba \<in> fst ` set (disk Ba)" using con by (simp add: map_of_keys [symmetric])
  have inv': "store_inv B'"
    using A(1) kin unfolding e by (simp add: store_inv_def dom_update insert_absorb)
  have d': "map_of (disk B') (cur_n Ba) = Some (content @ snd ?enc)"
    unfolding e by (simp add: update_conv' wr)
  have c': "cur_n B' = cur_n Ba" and s': "cur_size B' = cur_size Ba + length (snd ?enc)"
    unfolding e by simp_all
  have syn': "store_synced B'"
    using inv' d' cl by (simp add: store_synced_def c' s')
  have comp: "snappyCompression B' = snappyCompression B"
    unfolding e using A(3) by simp
  have ix: "map_of (db (index B')) (formatKey (BlobPosKey E) key) = Some ?pos"
    unfolding e by (simp add: map_of_db_set)
  have ks: "fst ` set (db (index B'))
              = insert (formatKey (BlobPosKey E) key) (fst ` set (db (index B)))"
    unfolding e by (simp add: keys_db_set A(2))
  have other: "\<forall>j. j \<noteq> cur_n Ba \<longrightarrow> map_of (disk B') j = map_of (disk B) j"
  proof (intro allI impI)
    fix j assume j: "j \<noteq> cur_n Ba"
    have "map_of (disk B') j = map_of (disk Ba) j"
      unfolding e using j by (simp add: update_conv')
    also have "\<dots> = map_of (disk B) j"
      using W j by (auto split: if_splits)
    finally show "map_of (disk B') j = map_of (disk B) j" .
  qed
  have wh: "if int (cur_size B) + int (fst ?enc) > maxBlobsFileSize B
            then cur_n Ba = cur_n B + 1 \<and> content = magic \<and> map_of (disk B) (cur_n Ba) = None
            else cur_n Ba = cur_n B \<and> map_of (disk B) (cur_n Ba) = Some content"
    using W con none by (auto split: if_splits)
  have "hex_decode hash = Some key \<and>
        map_of (db (index B')) (formatKey (BlobPosKey E) key) = Some ?pos \<and>
        fst ` set (db (index B'))
          = insert (formatKey (BlobPosKey E) key) (fst ` set (db (index B))) \<and>
        cur_n B' = pos_n ?pos \<and> pos_offset ?pos = length content \<and>
        map_of (disk B') (pos_n ?pos) = Some (content @ snd ?enc) \<and>
        (\<forall>j. j \<noteq> pos_n ?pos \<longrightarrow> map_of (disk B') j = map_of (disk B) j) \<and>
        (if int (cur_size B) + int (fst ?enc) > maxBlobsFileSize B
         then pos_n ?pos = cur_n B + 1 \<and> content = magic \<and> map_of (disk B) (pos_n ?pos) = None
         else pos_n ?pos = cur_n B \<and> map_of (disk B) (pos_n ?pos) = Some content)"
    using key ix ks c' cl d' other wh by (auto split: if_splits)
  then show ?thesis using syn' comp by blast
qed

subsection \<open>Hexadecimal text\<close>

lemma hexval_hexdigit:
  assumes "d < 16" shows "hexval (hexdigit d) = Some d"
proof -
  have "d \<in> {0, 1, 2, 3, 4, 5, 6, 7, 8, 9, 10, 11, 12, 13, 14, 15}"
    using assms by (simp only: insert_iff empty_iff) arith
  then show ?thesis
    by (auto simp: hexdigit_def hexval_def)
qed

lemma hex_decode_encode: "hex_decode (hex_encode bs) = Some bs"
proof (induction bs)
  case Nil
  show ?case by simp
next
  case (Cons b bs)
  have "(unat b :: nat) < 2 ^ LENGTH(8)" by (rule unsigned_less)
  then have "unat b div 16 < 16" by (simp add: div_less_iff_less_mult)
  then have h: "hexval (hexdigit (unat b div 16)) = Some (unat b div 16)"
    by (rule hexval_hexdigit)
  have l: "hexval (hexdigit (unat b mod 16)) = Some (unat b mod 16)"
    by (rule hexval_hexdigit) simp
  show ?case by (simp add: h l Cons.IH)
qed

subsection \<open>The stand-in libraries and the example store with compression\<close>

lemma digest32_standin: "digest32 standin"
  by (simp add: digest32_def standin_simps pad32_def min_def)

lemma snappy_roundtrip_standin: "snappy_roundtrip standin"
  by (simp add: snappy_roundtrip_def standin_simps tag_Encode_def tag_Decode_def)

lemma store_inv_store0: "store_inv store0"
  by (simp add: store_inv_def store0_def)

lemma store_inv_storeC0: "store_inv storeC0"
  by (simp add: store_inv_def store0_def storeC0_def)

lemma store_synced_store0: "store_synced store0"
  by (simp add: store_synced_def store_inv_def store0_def length_magic)

lemma New_storeC0: "New None 0 True = Return storeC0"
  by (simp add: New_def load_empty_def New_struct_def wopen_def ropen_def saveN_def SetN_def
      store0_def storeC0_def Let_def length_magic defaultMaxBlobsFileSize_def)

lemma encodeBlob_blob1_C: "encodeBlob standin True blob1 = (4, frameC1)"
proof -
  have "encodeBlob standin True blob1 =
          (length (tag_Encode blob1),
           tl key1 @ [0] @ PutUint32 (length (tag_Encode blob1)) @ tag_Encode blob1)"
    by (simp add: encodeBlob_def standin_simps pad32_blob1 Let_def)
  then show ?thesis
    by (simp add: key1_def blob1_def frameC1_def PutUint32_def tag_Encode_def)
qed

lemma Put_storeC0: "Put standin None storeC0 hash1 blob1 = (Return (), storeC1)"
  by (simp add: Put_def encodeBlob_blob1_C Put_archive_def SetPos_def hex_decode_hash1
      current_Write_def store0_def storeC0_def storeC1_def Let_def formatKey_def key1_def
      standin_simps pwrite_def length_magic frameC1_def)

subsection \<open>Put, then Get\<close>

text \<open>
  What holds on a store whose handle for writing stands at offset \<open>size\<close>
  (\<open>store_inv\<close>): after a \<open>Put\<close> of a blob under its hash that returns without an
  error, \<open>Get\<close> of that hash returns the bytes of the blob, with or without
  compression, and \<open>Get\<close> of a hash that has no index entry returns
  \<open>ErrBlobNotFound\<close>. The payload of the frame, which is the blob, or with compression
  what Snappy made of it, is shorter than \<open>2 ^ 32\<close> bytes, the range of the size field
  of the frame. \<open>Get\<close> runs with no failing system call.
\<close>

lemma Put_Get_in_step:
  assumes inv: "store_inv B" and d: "digest32 E"
    and s: "snappyCompression B \<Longrightarrow> snappy_roundtrip E"
    and r: "Put E fl B (hex_encode (blake2b E b)) b = (Return u, B')"
    and sz: "fst (encodeBlob E (snappyCompression B) b) < 2 ^ 32"
  shows "Get E None B' (hex_encode (blake2b E b)) = Return b \<and>
         (\<forall>h key. hex_decode h = Some key \<and>
                   map_of (db (index B')) (formatKey (BlobPosKey E) key) = None
                   \<longrightarrow> Get E None B' h = Fail ErrBlobNotFound)"
proof -
  have "store_inv B'" using Put_Return [OF inv d r] by simp
  then have l: "loaded B'" by (simp add: store_inv_def)
  show ?thesis
    using Put_Get [OF inv d s r sz] Get_NotFound [OF l] by blast
qed

lemma Put_Get_in_step_example:
  "store_inv storeC0 \<and> digest32 standin \<and> snappy_roundtrip standin \<and>
   Put standin None storeC0 (hex_encode (blake2b standin blob1)) blob1 = (Return (), storeC1) \<and>
   Get standin None storeC1 (hex_encode (blake2b standin blob1)) = Return blob1 \<and>
   Get standin None storeC1 hash_a1 = Fail ErrBlobNotFound"
proof -
  have p: "Put standin None storeC0 (hex_encode (blake2b standin blob1)) blob1
             = (Return (), storeC1)"
    unfolding hash1_eq by (rule Put_storeC0)
  have z: "fst (encodeBlob standin (snappyCompression storeC0) blob1) < 2 ^ 32"
    by (simp add: storeC0_def store0_def encodeBlob_blob1_C)
  have k: "hex_decode hash_a1 = Some (tl (formatKey 1 (bytes_of [] @ the (hex_decode hash_a1))))"
    by (simp add: hash_a1_def hexval_def formatKey_def bytes_of_def)
  have n: "map_of (db (index storeC1))
             (formatKey (BlobPosKey standin) (tl (formatKey 1 (bytes_of [] @ the (hex_decode hash_a1)))))
           = None"
    by (simp add: storeC1_def storeC0_def store0_def standin_simps formatKey_def key1_def
        hash_a1_def hexval_def bytes_of_def)
  from Put_Get_in_step [OF store_inv_storeC0 digest32_standin snappy_roundtrip_standin p z]
  have g: "Get standin None storeC1 (hex_encode (blake2b standin blob1)) = Return blob1"
    and nf: "Get standin None storeC1 hash_a1 = Fail ErrBlobNotFound"
    using k n by blast+
  show ?thesis
    using store_inv_storeC0 digest32_standin snappy_roundtrip_standin p g nf by simp
qed

subsection \<open>Put twice\<close>

text \<open>
  C2, as the claim states it: a second \<open>Put\<close> of a blob that is present is a no-op.
  \<open>Put\<close> never looks the hash up: the second call appends a second frame to the
  container and moves the position record from offset 6 to offset 46.
\<close>

theorem Put_twice_counterexample:
  "hex_encode (blake2b standin blob1) = hash1 \<and>
   Put standin None store0 hash1 blob1 = (Return (), store1) \<and>
   Put standin None store1 hash1 blob1 = (Return (), store2) \<and>
   disk store1 = [(0, magic @ frame1)] \<and>
   disk store2 = [(0, magic @ frame1 @ frame1)] \<and>
   db (index store1) = [(key1, \<lparr>pos_n = 0, pos_offset = 6, pos_size = 3\<rparr>)] \<and>
   db (index store2) = [(key1, \<lparr>pos_n = 0, pos_offset = 46, pos_size = 3\<rparr>)] \<and>
   store2 \<noteq> store1"
proof -
  have "cur_size store2 \<noteq> cur_size store1" by (simp add: store1_def store2_def)
  then have "store2 \<noteq> store1" by auto
  then show ?thesis
    using hash1_eq Put_store0 Put_store1 by (simp add: store1_def store2_def)
qed

text \<open>
  C2, amended. Let the store be one on which no write has failed (\<open>store_synced\<close>: the
  handle for writing stands at the end of container \<open>n\<close>, at offset \<open>size\<close>), and
  let no system call fail. Two calls of \<open>Put\<close> with a blob and its hash both succeed,
  and the index holds the same keys after the second call as after the first. The second
  call is not a no-op: it writes the frame a second time, behind the first one in the same
  container or, when the test of the size fires, behind the magic of a new container, and
  the position record of the hash points at the second frame; the first frame stays where
  it was. So the containers and the index differ from what the first call left.
\<close>

theorem Put_twice:
  assumes syn: "store_synced B"
  shows "\<exists>B1 B2 p1 p2 c1.
           Put E None B (hex_encode (blake2b E b)) b = (Return (), B1) \<and>
           Put E None B1 (hex_encode (blake2b E b)) b = (Return (), B2) \<and>
           fst ` set (db (index B2)) = fst ` set (db (index B1)) \<and>
           GetPos E None (index B1) (hex_encode (blake2b E b)) = Return (Some p1) \<and>
           GetPos E None (index B2) (hex_encode (blake2b E b)) = Return (Some p2) \<and>
           p2 \<noteq> p1 \<and>
           map_of (disk B1) (pos_n p1) = Some c1 \<and>
           pread c1 (pos_offset p1) (length (snd (encodeBlob E (snappyCompression B) b)))
             = Some (snd (encodeBlob E (snappyCompression B) b)) \<and>
           length c1 = pos_offset p1 + length (snd (encodeBlob E (snappyCompression B) b)) \<and>
           (if int (cur_size B1) + int (fst (encodeBlob E (snappyCompression B) b))
                 > maxBlobsFileSize B1
            then pos_n p2 = pos_n p1 + 1 \<and> pos_offset p2 = length magic \<and>
                 map_of (disk B1) (pos_n p2) = None \<and>
                 map_of (disk B2) (pos_n p2)
                   = Some (magic @ snd (encodeBlob E (snappyCompression B) b)) \<and>
                 map_of (disk B2) (pos_n p1) = Some c1
            else pos_n p2 = pos_n p1 \<and> pos_offset p2 = length c1 \<and>
                 map_of (disk B2) (pos_n p1)
                   = Some (c1 @ snd (encodeBlob E (snappyCompression B) b))) \<and>
           disk B2 \<noteq> disk B1 \<and> index B2 \<noteq> index B1"
proof -
  let ?h = "hex_encode (blake2b E b)"
  let ?key = "formatKey (BlobPosKey E) (blake2b E b)"
  let ?enc = "encodeBlob E (snappyCompression B) b"
  let ?frame = "snd ?enc"
  have hd: "hex_decode ?h = Some (blake2b E b)" by (rule hex_decode_encode)
  have inv: "store_inv B" using syn by (simp add: store_synced_def)
  obtain B1 where p1: "Put E None B ?h b = (Return (), B1)"
    using Put_total [OF inv hd] by blast
  from Put_synced [OF syn p1] hd obtain q1 c0 where
    syn1: "store_synced B1" and comp: "snappyCompression B1 = snappyCompression B" and
    ix1: "map_of (db (index B1)) ?key = Some q1" and
    ks1: "fst ` set (db (index B1)) = insert ?key (fst ` set (db (index B)))" and
    n1: "cur_n B1 = pos_n q1" and o1: "pos_offset q1 = length c0" and
    d1: "map_of (disk B1) (pos_n q1) = Some (c0 @ ?frame)"
    by auto
  have inv1: "store_inv B1" using syn1 by (simp add: store_synced_def)
  obtain B2 where p2: "Put E None B1 ?h b = (Return (), B2)"
    using Put_total [OF inv1 hd] by blast
  let ?roll = "int (cur_size B1) + int (fst ?enc) > maxBlobsFileSize B1"
  from Put_synced [OF syn1 p2] hd obtain q2 c where
    ix2: "map_of (db (index B2)) ?key = Some q2" and
    ks2: "fst ` set (db (index B2)) = insert ?key (fst ` set (db (index B1)))" and
    o2: "pos_offset q2 = length c" and
    d2: "map_of (disk B2) (pos_n q2) = Some (c @ ?frame)" and
    oth: "\<forall>j. j \<noteq> pos_n q2 \<longrightarrow> map_of (disk B2) j = map_of (disk B1) j" and
    wh: "if ?roll
         then pos_n q2 = cur_n B1 + 1 \<and> c = magic \<and> map_of (disk B1) (pos_n q2) = None
         else pos_n q2 = cur_n B1 \<and> map_of (disk B1) (pos_n q2) = Some c"
    unfolding comp by auto
  have ne: "?frame \<noteq> []" by (rule encodeBlob_nonempty)
  have keys: "fst ` set (db (index B2)) = fst ` set (db (index B1))"
    unfolding ks2 unfolding ks1 by simp
  have g1: "GetPos E None (index B1) ?h = Return (Some q1)"
    by (simp add: GetPos_def hd ix1)
  have g2: "GetPos E None (index B2) ?h = Return (Some q2)"
    by (simp add: GetPos_def hd ix2)
  have rd: "pread (c0 @ ?frame) (pos_offset q1) (length ?frame) = Some ?frame"
    by (simp add: pread_def o1)
  have le: "length (c0 @ ?frame) = pos_offset q1 + length ?frame"
    by (simp add: o1)
  have sh: "if ?roll
            then pos_n q2 = pos_n q1 + 1 \<and> pos_offset q2 = length magic \<and>
                 map_of (disk B1) (pos_n q2) = None \<and>
                 map_of (disk B2) (pos_n q2) = Some (magic @ ?frame) \<and>
                 map_of (disk B2) (pos_n q1) = Some (c0 @ ?frame)
            else pos_n q2 = pos_n q1 \<and> pos_offset q2 = length (c0 @ ?frame) \<and>
                 map_of (disk B2) (pos_n q1) = Some ((c0 @ ?frame) @ ?frame)"
  proof (cases ?roll)
    case True
    then have a: "pos_n q2 = pos_n q1 + 1" "c = magic" "map_of (disk B1) (pos_n q2) = None"
      using wh n1 by auto
    have "map_of (disk B2) (pos_n q1) = map_of (disk B1) (pos_n q1)"
      using oth a(1) by simp
    then show ?thesis using True a o2 d2 d1 by simp
  next
    case False
    then have a: "pos_n q2 = pos_n q1" "map_of (disk B1) (pos_n q2) = Some c"
      using wh n1 by auto
    then have "c = c0 @ ?frame" using d1 by simp
    then show ?thesis using False a o2 d2 by simp
  qed
  have pne: "q2 \<noteq> q1"
  proof
    assume "q2 = q1"
    then have "pos_n q2 = pos_n q1" "pos_offset q2 = pos_offset q1" by simp_all
    then show False using sh o1 ne by (auto split: if_splits)
  qed
  have dne: "disk B2 \<noteq> disk B1"
  proof
    assume "disk B2 = disk B1"
    then have "map_of (disk B2) (pos_n q2) = map_of (disk B1) (pos_n q2)" by simp
    then show False using sh d1 d2 ne by (auto split: if_splits)
  qed
  have ine: "index B2 \<noteq> index B1"
  proof
    assume "index B2 = index B1"
    then have "map_of (db (index B2)) ?key = map_of (db (index B1)) ?key" by simp
    then show False using ix1 ix2 pne by simp
  qed
  show ?thesis
    using p1 p2 keys g1 g2 pne d1 rd le sh dne ine
    by (intro exI [of _ B1] exI [of _ B2] exI [of _ q1] exI [of _ q2]
        exI [of _ "c0 @ ?frame"] conjI) assumption+
qed

theorem Put_twice_witness:
  "store_synced store0 \<and>
   Put standin None store0 hash1 blob1 = (Return (), store1) \<and>
   Put standin None store1 hash1 blob1 = (Return (), store2) \<and>
   fst ` set (db (index store2)) = fst ` set (db (index store1)) \<and>
   GetPos standin None (index store2) hash1 \<noteq> GetPos standin None (index store1) hash1 \<and>
   map_of (disk store1) 0 = Some (magic @ frame1) \<and>
   map_of (disk store2) 0 = Some ((magic @ frame1) @ frame1) \<and>
   disk store2 \<noteq> disk store1 \<and> index store2 \<noteq> index store1"
proof -
  from Put_twice [OF store_synced_store0, of standin blob1, unfolded hash1_eq]
  obtain B1 B2 p1 p2 c1 where
    a: "Put standin None store0 hash1 blob1 = (Return (), B1)" and
    b: "Put standin None B1 hash1 blob1 = (Return (), B2)" and
    k: "fst ` set (db (index B2)) = fst ` set (db (index B1))" and
    q1: "GetPos standin None (index B1) hash1 = Return (Some p1)" and
    q2: "GetPos standin None (index B2) hash1 = Return (Some p2)" and
    ne: "p2 \<noteq> p1" and
    dn: "disk B2 \<noteq> disk B1" and xn: "index B2 \<noteq> index B1"
    by blast
  have B1: "B1 = store1" using a Put_store0 by simp
  have B2: "B2 = store2" using b Put_store1 unfolding B1 by simp
  have g: "GetPos standin None (index store2) hash1 \<noteq> GetPos standin None (index store1) hash1"
    using q1 q2 ne unfolding B1 B2 by simp
  have d: "map_of (disk store1) 0 = Some (magic @ frame1)"
    "map_of (disk store2) 0 = Some ((magic @ frame1) @ frame1)"
    by (simp_all add: store1_def store2_def store0_def)
  show ?thesis
    using store_synced_store0 Put_store0 Put_store1 k g d dn xn
    unfolding B1 B2 by simp
qed

subsection \<open>The size of a container\<close>

text \<open>
  C6. The claim: a frame that would take the container beyond \<open>maxBlobsFileSize\<close> goes
  to a new container, so that no container exceeds \<open>maxBlobsFileSize\<close>. \<open>Put\<close>
  compares \<open>size + blobSize\<close>, the length of the payload without the 37 bytes of the
  header, with the maximum. Here \<open>maxBlobsFileSize\<close> is 50 and container 0 holds 46
  bytes; the frame of the three-byte blob is 40 bytes long, and 46 + 3 is not above 50:
  the frame is appended to container 0, which is then 86 bytes long, and no container 1
  exists.
\<close>

theorem Put_exceeds_maxBlobsFileSize:
  "New None 50 False = Return store0 \<and>
   Put standin None store0 hash1 blob1 = (Return (), store1) \<and>
   maxBlobsFileSize store1 = 50 \<and> cur_n store1 = 0 \<and> cur_size store1 = 46 \<and>
   map_option length (map_of (disk store1) 0) = Some 46 \<and>
   length (snd (encodeBlob standin (snappyCompression store1) blob1)) = 40 \<and>
   Put standin None store1 hash1 blob1 = (Return (), store2) \<and>
   cur_n store2 = 0 \<and>
   map_option length (map_of (disk store2) 0) = Some 86 \<and>
   map_of (disk store2) 1 = None"
proof -
  have "maxBlobsFileSize store1 = 50 \<and> cur_n store1 = 0 \<and> cur_size store1 = 46 \<and>
     map_option length (map_of (disk store1) 0) = Some 46 \<and>
     length (snd (encodeBlob standin (snappyCompression store1) blob1)) = 40 \<and>
     cur_n store2 = 0 \<and>
     map_option length (map_of (disk store2) 0) = Some 86 \<and>
     map_of (disk store2) 1 = None"
    by (simp add: store0_def store1_def store2_def encodeBlob_blob1 length_magic frame1_def)
  then show ?thesis
    using New_store0 Put_store0 Put_store1 by simp
qed

subsection \<open>Index entries after a failed write\<close>

text \<open>
  C7. The claim: after every operation, also one that returns an error, each position
  record of the index points at a valid frame whose hash field is the key. \<open>Put\<close>
  saves the position before it writes the frame and returns at a failed write without
  taking the position back. Here the write fails after 10 of the 40 bytes of the frame:
  \<open>Put\<close> returns an error, the index maps the hash to container 0, offset 6, size 3,
  and container 0 is 16 bytes long, so the 40 bytes of the record are not there, and
  \<open>Get\<close> of the hash fails on the read.
\<close>

theorem Put_failed_write_leaves_position:
  "New None 50 False = Return store0 \<and>
   hex_encode (blake2b standin blob1) = hash1 \<and>
   Put standin (Some (WriteFault 10)) store0 hash1 blob1 = (Fail ErrOther, storeF) \<and>
   GetPos standin None (index storeF) hash1
     = Return (Some \<lparr>pos_n = 0, pos_offset = 6, pos_size = 3\<rparr>) \<and>
   map_option length (map_of (disk storeF) 0) = Some 16 \<and>
   map_option (\<lambda>content. pread content 6 (3 + Overhead)) (map_of (disk storeF) 0) = Some None \<and>
   Get standin None storeF hash1 = Fail ErrOther"
proof -
  have p: "Put standin (Some (WriteFault 10)) store0 hash1 blob1 = (Fail ErrOther, storeF)"
    by (simp add: Put_def encodeBlob_blob1 Put_archive_def SetPos_def hex_decode_hash1
      current_Write_def store0_def storeF_def Let_def formatKey_def key1_def standin_simps
      pwrite_def length_magic frame1_def)
  have g: "GetPos standin None (index storeF) hash1
     = Return (Some \<lparr>pos_n = 0, pos_offset = 6, pos_size = 3\<rparr>)"
    by (simp add: GetPos_def hex_decode_hash1 storeF_def store0_def standin_simps formatKey_def
        key1_def)
  have l: "map_of (disk storeF) 0 = Some (magic @ take 10 frame1)"
    by (simp add: storeF_def store0_def)
  have r: "pread (magic @ take 10 frame1) 6 (3 + Overhead) = None"
    by (simp add: pread_def length_magic frame1_def Overhead_def)
  have "Get standin None storeF hash1 = Fail ErrOther"
    using r by (simp add: Get_def g l) (simp add: storeF_def store0_def)
  then show ?thesis
    using New_store0 hash1_eq p g r by (simp add: l length_magic frame1_def)
qed

subsection \<open>Get of a corrupted frame\<close>

text \<open>
  C3, as the claim states it: \<open>Get\<close> of a hash whose payload on disk no longer hashes
  to it returns a NotFound or Corrupted error. In \<open>storeX\<close> the last byte of the payload
  of the blob is 7 instead of 3. \<open>Get\<close> returns no error: \<open>decodeBlob\<close> panics.
\<close>

theorem Get_corrupted_counterexample:
  "map_of (disk store1) 0 = Some (magic @ frame1) \<and>
   Get standin None store1 hash1 = Return blob1 \<and>
   map_of (disk storeX) 0 = Some (magic @ frame1 [39 := 7]) \<and>
   index storeX = index store1 \<and>
   Get standin None storeX hash1 = Panic \<and>
   Get standin None storeX hash1 \<noteq> Fail ErrBlobNotFound \<and>
   Get standin None storeX hash1 \<noteq> Fail ErrOther"
proof -
  have g: "GetPos standin None (index store1) hash1
     = Return (Some \<lparr>pos_n = 0, pos_offset = 6, pos_size = 3\<rparr>)"
    by (simp add: GetPos_def hex_decode_hash1 store1_def store0_def standin_simps formatKey_def
        key1_def)
  have r1: "pread (magic @ frame1) 6 (3 + Overhead) = Some frame1"
    by (simp add: pread_def length_magic frame1_def Overhead_def)
  have rx: "pread (magic @ frame1 [39 := 7]) 6 (3 + Overhead) = Some (frame1 [39 := 7])"
    by (simp add: pread_def length_magic frame1_def Overhead_def)
  have p1: "pad32 [1, 2, 3] = take 32 frame1"
    by code_simp
  have px: "pad32 [1, 2, 7] \<noteq> take 32 frame1"
    by code_simp
  have d1: "decodeBlob standin False frame1 = Return (3, blob1)"
    using p1 by (simp add: decodeBlob_def frame1_def Overhead_def hashSize_def standin_simps
        blob1_def)
  have dx: "decodeBlob standin False (frame1 [39 := 7]) = Panic"
    using px by (simp add: decodeBlob_def frame1_def Overhead_def hashSize_def standin_simps)
  have a: "Get standin None store1 hash1 = Return blob1"
    using r1 by (simp add: Get_def g) (simp add: store1_def store0_def d1)
  have b: "Get standin None storeX hash1 = Panic"
    using rx by (simp add: Get_def g storeX_def) (simp add: store1_def store0_def dx)
  show ?thesis
    using a b by (simp add: storeX_def store1_def store0_def)
qed

text \<open>
  C3, amended. Let the index map the hash \<open>h\<close> to a position whose container is open,
  and let the bytes at the position be a frame with the hash field \<open>h\<close> and the size
  of the position record, whose payload does not decode (with compression) or decodes to
  bytes with another digest. Then \<open>Get\<close> panics in \<open>decodeBlob\<close>: it returns neither an
  error nor bytes, and with a failing system call it returns an error. The corrupted bytes
  are never returned.
\<close>

theorem Get_corrupted_panics:
  assumes l: "loaded B"
    and k: "hex_decode h = Some hsh" and len: "length hsh = 32"
    and ix: "map_of (db (index B)) (formatKey (BlobPosKey E) hsh) = Some pos"
    and f: "map_of (files B) (pos_n pos) = Some c"
    and dk: "map_of (disk B) (pos_n pos) = Some content"
    and sz: "pos_size pos = length payload" and b: "length payload < 2 ^ 32"
    and rd: "pread content (pos_offset pos) (pos_size pos + Overhead)
               = Some (hsh @ [flags] @ PutUint32 (length payload) @ payload)"
    and bad: "\<forall>blob. (if snappyCompression B then snappy_Decode E payload else Some payload)
                 = Some blob \<longrightarrow> blake2b E blob \<noteq> hsh"
  shows "Get E None B h = Panic \<and> (\<forall>fl blob. Get E fl B h \<noteq> Return blob)"
proof -
  let ?data = "hsh @ flags # PutUint32 (length payload) @ payload"
  have dec: "decodeBlob E (snappyCompression B) ?data = Panic"
    using bad decodeBlob_frame [OF len b, of E "snappyCompression B" flags]
    by (auto split: option.splits)
  have g: "\<And>fl. GetPos E fl (index B) h = Return (Some pos) \<or> GetPos E fl (index B) h = Fail ErrOther"
    using k ix by (simp add: GetPos_def)
  have "Get E None B h = Panic"
    using k ix by (simp add: Get_def l GetPos_def f dk rd dec)
  moreover have "Get E fl B h \<noteq> Return blob" for fl blob
    using g [of fl] by (auto simp: Get_def l f dk rd dec split: if_splits)
  ultimately show ?thesis by blast
qed

theorem Get_corrupted_panics_witness:
  "loaded storeX \<and> hex_decode hash1 = Some (tl key1) \<and>
   map_of (db (index storeX)) (formatKey (BlobPosKey standin) (tl key1))
     = Some \<lparr>pos_n = 0, pos_offset = 6, pos_size = 3\<rparr> \<and>
   map_of (disk storeX) 0 = Some (magic @ frame1 [39 := 7]) \<and>
   pread (magic @ frame1 [39 := 7]) 6 (3 + Overhead)
     = Some (tl key1 @ [0] @ PutUint32 3 @ [1, 2, 7]) \<and>
   blake2b standin [1, 2, 7] \<noteq> tl key1 \<and>
   Get standin None storeX hash1 = Panic \<and>
   Get standin (Some ReadAtFault) storeX hash1 \<noteq> Return [1, 2, 7]"
proof -
  let ?pos = "\<lparr>pos_n = 0, pos_offset = 6, pos_size = 3\<rparr>"
  have l: "loaded storeX" by (simp add: storeX_def store1_def store0_def)
  have len: "length (tl key1) = 32" by (simp add: key1_def)
  have ix: "map_of (db (index storeX)) (formatKey (BlobPosKey standin) (tl key1)) = Some ?pos"
    by (simp add: storeX_def store1_def store0_def standin_simps formatKey_def key1_def)
  have f: "map_of (files storeX) (pos_n ?pos) = Some 6"
    by (simp add: storeX_def store1_def store0_def)
  have dk: "map_of (disk storeX) (pos_n ?pos) = Some (magic @ frame1 [39 := 7])"
    by (simp add: storeX_def store1_def store0_def)
  have sz: "pos_size ?pos = length [1, 2, 7 :: byte]" by simp
  have b: "length [1, 2, 7 :: byte] < 2 ^ 32" by simp
  have rd: "pread (magic @ frame1 [39 := 7]) (pos_offset ?pos) (pos_size ?pos + Overhead)
              = Some (tl key1 @ [0] @ PutUint32 (length [1, 2, 7 :: byte]) @ [1, 2, 7])"
    by (simp add: pread_def length_magic frame1_def Overhead_def key1_def PutUint32_def)
  have px: "pad32 [1, 2, 7] \<noteq> tl key1"
    by code_simp
  have bad: "\<forall>blob. (if snappyCompression storeX then snappy_Decode standin [1, 2, 7]
                       else Some [1, 2, 7]) = Some blob \<longrightarrow> blake2b standin blob \<noteq> tl key1"
    using px by (simp add: storeX_def store1_def store0_def standin_simps)
  from Get_corrupted_panics [OF l hex_decode_hash1 len ix f dk sz b rd bad]
  have g: "Get standin None storeX hash1 = Panic"
    and n: "Get standin (Some ReadAtFault) storeX hash1 \<noteq> Return [1, 2, 7]"
    by blast+
  show ?thesis
    using l hex_decode_hash1 ix dk rd px g n by (simp add: standin_simps eval_nat_numeral)
qed

subsection \<open>Enumeration of a range\<close>

lemma pad32_blob4: "pad32 blob4 = tl key4"
  by code_simp

lemma pad32_blob9: "pad32 blob9 = tl key9"
  by code_simp

lemma hash4_eq: "hex_encode (blake2b standin blob4) = hash4"
  by (simp add: standin_simps pad32_blob4 key4_def hash4_def hexdigit_def)

lemma hash9_eq: "hex_encode (blake2b standin blob9) = hash9"
  by (simp add: standin_simps pad32_blob9 key9_def hash9_def hexdigit_def)

lemma hex_decode_hash4: "hex_decode hash4 = Some (tl key4)"
  by (simp add: hash4_def key4_def hexval_def)

lemma hex_decode_hash9: "hex_decode hash9 = Some (tl key9)"
  by (simp add: hash9_def key9_def hexval_def)

lemma encodeBlob_blob4: "encodeBlob standin False blob4 = (1, frame4)"
proof -
  have "encodeBlob standin False blob4 = (length blob4, tl key4 @ [0] @ PutUint32 (length blob4) @ blob4)"
    by (simp add: encodeBlob_def standin_simps pad32_blob4)
  then show ?thesis
    by (simp add: key4_def blob4_def frame4_def PutUint32_def)
qed

lemma encodeBlob_blob9: "encodeBlob standin False blob9 = (2, frame9)"
proof -
  have "encodeBlob standin False blob9 = (length blob9, tl key9 @ [0] @ PutUint32 (length blob9) @ blob9)"
    by (simp add: encodeBlob_def standin_simps pad32_blob9)
  then show ?thesis
    by (simp add: key9_def blob9_def frame9_def PutUint32_def)
qed

lemma Put_store1_blob4: "Put standin None store1 hash4 blob4 = (Return (), storeE1)"
  by (simp add: Put_def encodeBlob_blob4 Put_archive_def SetPos_def hex_decode_hash4
      current_Write_def store0_def store1_def storeE1_def Let_def formatKey_def key1_def key4_def
      standin_simps pwrite_def length_magic frame1_def frame4_def)

lemma Put_storeE1_blob9: "Put standin None storeE1 hash9 blob9 = (Return (), storeE)"
  by (simp add: Put_def encodeBlob_blob9 Put_archive_def SetPos_def hex_decode_hash9
      current_Write_def store0_def storeE1_def storeE_def Let_def formatKey_def key1_def key4_def
      key9_def standin_simps pwrite_def length_magic frame1_def frame4_def frame9_def
      wopen_def ropen_def saveN_def SetN_def)

lemma GetPos_storeE:
  "GetPos standin None (index storeE) hash1 = Return (Some \<lparr>pos_n = 0, pos_offset = 6, pos_size = 3\<rparr>)"
  "GetPos standin None (index storeE) hash4 = Return (Some \<lparr>pos_n = 0, pos_offset = 46, pos_size = 1\<rparr>)"
  "GetPos standin None (index storeE) hash9 = Return (Some \<lparr>pos_n = 1, pos_offset = 6, pos_size = 2\<rparr>)"
  by (simp_all add: GetPos_def hex_decode_hash1 hex_decode_hash4 hex_decode_hash9 storeE_def
      store0_def standin_simps formatKey_def key1_def key4_def key9_def)

lemma hex_encode_keys:
  "hex_encode (tl key1) = hash1" "hex_encode (tl key4) = hash4" "hex_encode (tl key9) = hash9"
  by (simp_all add: key1_def key4_def key9_def hash1_def hash4_def hash9_def hexdigit_def)

lemma db_Seek_storeE:
  "db_Seek (formatKey (BlobPosKey standin) (tl key1)) (db (index storeE)) = db (index storeE)"
  by (simp add: db_Seek_def storeE_def store0_def standin_simps formatKey_def key1_def)

lemma Compare_end_hash4:
  "bytes_Compare key1 (bytes_of hash4) = - 1" "bytes_Compare key4 (bytes_of hash4) = - 1"
  "bytes_Compare key9 (bytes_of hash4) = - 1"
  by (simp_all add: key1_def key4_def key9_def hash4_def bytes_of_def)

lemma Compare_end_hash9:
  "bytes_Compare key1 (bytes_of hash9) = - 1" "bytes_Compare key4 (bytes_of hash9) = - 1"
  "bytes_Compare key9 (bytes_of hash9) = - 1"
  by (simp_all add: key1_def key4_def key9_def hash9_def bytes_of_def)

text \<open>
  C8. The claim: \<open>Enumerate2 start end limit\<close> yields the stored hashes from \<open>start\<close>
  (inclusive) to \<open>end\<close> (exclusive), at most \<open>limit\<close> of them when \<open>limit\<close> is not 0.
  The store \<open>storeE\<close> holds three hashes, \<open>hash1 < hash4 < hash9\<close>. From \<open>hash1\<close> to
  \<open>hash4\<close> without a limit the claim asks for \<open>hash1\<close> alone, and the code yields
  all three: it compares the whole key, whose first byte is the prefix of the index, with
  the bytes of the hexadecimal text of \<open>end\<close>, and every key is below. From \<open>hash1\<close>
  to \<open>hash9\<close> with the limit 1 the claim asks for one hash, and the code yields two:
  the loop stops when the count is above the limit, not when it reaches it.
\<close>

theorem Enumerate2_range_and_limit:
  "Put standin None store1 hash4 blob4 = (Return (), storeE1) \<and>
   Put standin None storeE1 hash9 blob9 = (Return (), storeE) \<and>
   map fst (db (index storeE)) = [key1, key4, key9] \<and>
   map (\<lambda>k. hex_encode (tl k)) [key1, key4, key9] = [hash1, hash4, hash9] \<and>
   Enumerate2 standin None storeE hash1 hash4 0 =
     ([\<lparr>Hash = hash1, Size = 3\<rparr>, \<lparr>Hash = hash4, Size = 1\<rparr>, \<lparr>Hash = hash9, Size = 2\<rparr>],
      Return ()) \<and>
   Enumerate2 standin None storeE hash1 hash9 1 =
     ([\<lparr>Hash = hash1, Size = 3\<rparr>, \<lparr>Hash = hash4, Size = 1\<rparr>], Return ())"
proof -
  have l: "loaded storeE" by (simp add: storeE_def store0_def)
  have d: "db (index storeE) =
             [(key1, \<lparr>pos_n = 0, pos_offset = 6, pos_size = 3\<rparr>),
              (key4, \<lparr>pos_n = 0, pos_offset = 46, pos_size = 1\<rparr>),
              (key9, \<lparr>pos_n = 1, pos_offset = 6, pos_size = 2\<rparr>)]"
    by (simp add: storeE_def store0_def)
  have a: "Enumerate2 standin None storeE hash1 hash4 0 =
     ([\<lparr>Hash = hash1, Size = 3\<rparr>, \<lparr>Hash = hash4, Size = 1\<rparr>, \<lparr>Hash = hash9, Size = 2\<rparr>],
      Return ())"
    unfolding Enumerate2_def
    by (simp add: l hex_decode_hash1 db_Seek_storeE)
       (simp add: d Compare_end_hash4 hex_encode_keys GetPos_storeE)
  have b: "Enumerate2 standin None storeE hash1 hash9 1 =
     ([\<lparr>Hash = hash1, Size = 3\<rparr>, \<lparr>Hash = hash4, Size = 1\<rparr>], Return ())"
    unfolding Enumerate2_def
    by (simp add: l hex_decode_hash1 db_Seek_storeE)
       (simp add: d Compare_end_hash9 hex_encode_keys GetPos_storeE)
  show ?thesis
    using a b Put_store1_blob4 Put_storeE1_blob9 by (simp add: d hex_encode_keys)
qed

subsection \<open>Put after a failed write, then Get\<close>

lemma Put_store0_short_write:
  "Put standin (Some (WriteFault 10)) store0 hash1 blob1 = (Fail ErrOther, storeF)"
  by (simp add: Put_def encodeBlob_blob1 Put_archive_def SetPos_def hex_decode_hash1
      current_Write_def store0_def storeF_def Let_def formatKey_def key1_def standin_simps
      pwrite_def length_magic frame1_def)

text \<open>The failed write takes the store out of \<open>store_inv\<close>, and so out of \<open>store_synced\<close>.\<close>

lemma storeF_not_store_inv: "store_synced store0 \<and> \<not> store_inv storeF \<and> \<not> store_synced storeF"
  by (simp add: store_synced_store0) (simp add: store_synced_def store_inv_def storeF_def store0_def)

lemma Put_storeF_blob4: "Put standin None storeF hash4 blob4 = (Return (), storeG)"
  by (simp add: Put_def encodeBlob_blob4 Put_archive_def SetPos_def hex_decode_hash4
      current_Write_def store0_def storeF_def storeG_def Let_def formatKey_def key1_def key4_def
      standin_simps pwrite_def length_magic frame1_def frame4_def)

lemma GetPos_storeG:
  "GetPos standin None (index storeG) hash4
     = Return (Some \<lparr>pos_n = 0, pos_offset = 46, pos_size = 1\<rparr>)"
  by (simp add: GetPos_def hex_decode_hash4 storeG_def store0_def standin_simps formatKey_def
      key1_def key4_def)

text \<open>
  C1. The claim: after a \<open>Put\<close> of a blob under its hash that succeeds, \<open>Get\<close> of the
  hash succeeds and returns the blob. \<open>Put\<close> adds the length of the frame to \<open>size\<close>
  before it looks at what the write returned, so after a write that failed \<open>size\<close> is
  ahead of the offset of the handle. Here a first \<open>Put\<close>, of the three-byte blob, fails
  in the write after 10 of the 40 bytes of its frame and returns an error: \<open>size\<close> is 46
  and the handle stands at 16. The next \<open>Put\<close>, of the one-byte blob under its hash,
  has no failing system call and returns without an error; it records the offset 46 for
  the hash, and the 38 bytes of its frame go to the offsets 16 to 54 of container 0.
  \<open>Get\<close> of the hash reads 38 bytes at offset 46 of a container that is 54 bytes long,
  and returns an error instead of the blob.
\<close>

theorem Put_after_failed_write_Get_fails:
  "New None 50 False = Return store0 \<and>
   Put standin (Some (WriteFault 10)) store0 hash1 blob1 = (Fail ErrOther, storeF) \<and>
   cur_size storeF = 46 \<and> current storeF = Some (0, 16) \<and>
   hex_encode (blake2b standin blob4) = hash4 \<and>
   Put standin None storeF hash4 blob4 = (Return (), storeG) \<and>
   GetPos standin None (index storeG) hash4
     = Return (Some \<lparr>pos_n = 0, pos_offset = 46, pos_size = 1\<rparr>) \<and>
   map_of (disk storeG) 0 = Some (magic @ take 10 frame1 @ frame4) \<and>
   map_option length (map_of (disk storeG) 0) = Some 54 \<and>
   map_option (\<lambda>content. pread content 16 (1 + Overhead)) (map_of (disk storeG) 0)
     = Some (Some frame4) \<and>
   map_option (\<lambda>content. pread content 46 (1 + Overhead)) (map_of (disk storeG) 0)
     = Some None \<and>
   Get standin None storeG hash4 = Fail ErrOther \<and>
   Get standin None storeG hash4 \<noteq> Return blob4"
proof -
  have f: "cur_size storeF = 46 \<and> current storeF = Some (0, 16)"
    by (simp add: storeF_def store0_def)
  have l: "map_of (disk storeG) 0 = Some (magic @ take 10 frame1 @ frame4)"
    by (simp add: storeG_def store0_def)
  have n: "map_option length (map_of (disk storeG) 0) = Some 54"
    by (simp add: l length_magic frame1_def frame4_def)
  have r16: "pread (magic @ take 10 frame1 @ frame4) 16 (1 + Overhead) = Some frame4"
    by (simp add: pread_def length_magic frame1_def frame4_def Overhead_def)
  have r46: "pread (magic @ take 10 frame1 @ frame4) 46 (1 + Overhead) = None"
    by (simp add: pread_def length_magic frame1_def frame4_def Overhead_def)
  have g: "Get standin None storeG hash4 = Fail ErrOther"
    using r46 by (simp add: Get_def GetPos_storeG l) (simp add: storeG_def store0_def)
  have r: "map_option (\<lambda>content. pread content 16 (1 + Overhead)) (map_of (disk storeG) 0)
             = Some (Some frame4) \<and>
           map_option (\<lambda>content. pread content 46 (1 + Overhead)) (map_of (disk storeG) 0)
             = Some None"
    using r16 r46 by (simp add: l)
  show ?thesis
    using New_store0 Put_store0_short_write f hash4_eq Put_storeF_blob4 GetPos_storeG
      l n r g
    by simp
qed

subsection \<open>Delete and the flags byte\<close>

lemma pwrite_one: "off < length f \<Longrightarrow> pwrite f off [x] = f[off := x]"
  by (simp add: pwrite_def upd_conv_take_nth_drop)

lemma scan_frames_frame:
  assumes hl: "length hsh = 32" and pl: "length payload < 2 ^ 32"
  shows "scan_frames E c n off (hsh @ [flags] @ PutUint32 (length payload) @ payload @ rest) =
     (if flags = Deleted then scan_frames E c n (off + Overhead + length payload) rest
      else case (if c then snappy_Decode E payload else Some payload) of
             None \<Rightarrow> ([], Fail ErrOther)
           | Some blob \<Rightarrow>
               ((if hex_encode hsh = hex_encode (blake2b E blob)
                 then Indexed \<lparr>pos_n = n, pos_offset = off, pos_size = length payload\<rparr> flags
                        (hex_encode (blake2b E blob)) blob
                 else Corrupt \<lparr>pos_n = n, pos_offset = off, pos_size = length payload\<rparr>)
                # fst (scan_frames E c n (off + Overhead + length payload) rest),
                snd (scan_frames E c n (off + Overhead + length payload) rest)))"
proof -
  define szb where "szb = PutUint32 (length payload)"
  define r0 where "r0 = hsh @ [flags] @ szb @ payload @ rest"
  have u: "Uint32 szb = length payload"
    using pl by (simp add: szb_def Uint32_PutUint32)
  have l4: "length szb = 4" by (simp add: szb_def length_PutUint32)
  have ne: "r0 \<noteq> []" using hl by (auto simp: r0_def)
  have d32: "drop hashSize r0 = flags # szb @ payload @ rest"
    using hl by (simp add: r0_def hashSize_def)
  have d33: "drop (hashSize + 1) r0 = szb @ payload @ rest"
    using hl by (simp add: r0_def hashSize_def)
  have d37: "drop Overhead r0 = payload @ rest"
    using hl l4 by (simp add: r0_def Overhead_def)
  have "drop (Overhead + length payload) r0 = drop (length payload) (drop Overhead r0)"
    by (simp add: add.commute)
  then have dn: "drop (Overhead + length payload) r0 = rest"
    unfolding d37 by simp
  have bh: "read_buf hashSize r0 = hsh"
    using hl by (simp add: r0_def read_buf_def hashSize_def)
  have bs: "read_buf 4 (szb @ payload @ rest) = szb"
    using l4 by (simp add: read_buf_def)
  have ne33: "szb @ payload @ rest \<noteq> []" using l4 by auto
  show ?thesis
    unfolding szb_def [symmetric] r0_def [symmetric]
    apply (subst scan_frames.simps)
    apply (simp only: ne d32 d33 d37 dn bh bs u ne33 Let_def if_False list.simps list.sel
        take_append diff_self_eq_0 take_0 take_all [OF order_refl] append_Nil2 length_append
        not_add_less1 fst_conv snd_conv)
    done
qed

lemma Delete_disk:
  assumes inv: "store_inv B"
    and k: "hex_decode h = Some key"
    and ix: "map_of (db (index B)) (formatKey (BlobPosKey E) key) = Some pos"
    and dk: "map_of (disk B) (pos_n pos) = Some content"
    and rg: "pos_offset pos + hashSize < length content"
  shows "disk (snd (Delete E None B h)) =
           AList.update (pos_n pos)
             (case PunchHole E (content [pos_offset pos + hashSize := Deleted])
                     (pos_offset pos + Overhead) (pos_size pos) of
                None \<Rightarrow> content [pos_offset pos + hashSize := Deleted]
              | Some punched \<Rightarrow> punched)
             (disk B)"
proof -
  have l: "loaded B" and cur: "current B = Some (cur_n B, cur_size B)"
    using inv by (simp_all add: store_inv_def)
  have g: "GetPos E None (index B) h = Return (Some pos)"
    using k ix by (simp add: GetPos_def)
  have hd: "Delete_handle None B pos = Some (pos_n pos)"
    using cur dk by (simp add: Delete_handle_def)
  have m: "pwrite content (pos_offset pos + hashSize) [Deleted]
             = content [pos_offset pos + hashSize := Deleted]"
    using rg by (rule pwrite_one)
  show ?thesis
    using k by (simp add: Delete_def l g hd dk m DeletePos_def Let_def split: option.splits)
qed

text \<open>
  C9. \<open>Delete\<close> of an indexed hash writes one byte of the container: the byte at
  \<open>offset + 32\<close>, the flags byte of the frame, becomes \<open>Deleted\<close>, which is 1, whatever
  it was before (so the bit \<open>Compressed\<close> is not set in it); every other byte of the
  container, and every other container, is as before. These are the bytes handed to
  \<open>PunchHole\<close>, and the container afterwards is what \<open>PunchHole\<close> made of them (or
  these bytes when it fails). The scan skips a frame exactly when its flags byte equals
  \<open>Deleted\<close>; a frame with any other flags byte is indexed or reported corrupt.
\<close>

theorem Delete_writes_flags_byte:
  assumes inv: "store_inv B"
    and k: "hex_decode h = Some key"
    and ix: "map_of (db (index B)) (formatKey (BlobPosKey E) key) = Some pos"
    and dk: "map_of (disk B) (pos_n pos) = Some content"
    and rg: "pos_offset pos + hashSize < length content"
    and hl: "length hsh = 32" and pl: "length payload < 2 ^ 32"
  shows
    "(let marked = content [pos_offset pos + hashSize := Deleted];
          B' = snd (Delete E None B h)
      in Deleted = 1 \<and> hashSize = 32 \<and>
         marked ! (pos_offset pos + hashSize) = 1 \<and>
         marked ! (pos_offset pos + hashSize) AND Compressed = 0 \<and>
         length marked = length content \<and>
         (\<forall>i. i \<noteq> pos_offset pos + hashSize \<longrightarrow> marked ! i = content ! i) \<and>
         map_of (disk B') (pos_n pos) =
           Some (case PunchHole E marked (pos_offset pos + Overhead) (pos_size pos) of
                   None \<Rightarrow> marked | Some punched \<Rightarrow> punched) \<and>
         (\<forall>j. j \<noteq> pos_n pos \<longrightarrow> map_of (disk B') j = map_of (disk B) j)) \<and>
     scan_frames E c n off (hsh @ [flags] @ PutUint32 (length payload) @ payload @ rest) =
       (if flags = Deleted then scan_frames E c n (off + Overhead + length payload) rest
        else case (if c then snappy_Decode E payload else Some payload) of
               None \<Rightarrow> ([], Fail ErrOther)
             | Some blob \<Rightarrow>
                 ((if hex_encode hsh = hex_encode (blake2b E blob)
                   then Indexed \<lparr>pos_n = n, pos_offset = off, pos_size = length payload\<rparr> flags
                          (hex_encode (blake2b E blob)) blob
                   else Corrupt \<lparr>pos_n = n, pos_offset = off, pos_size = length payload\<rparr>)
                  # fst (scan_frames E c n (off + Overhead + length payload) rest),
                  snd (scan_frames E c n (off + Overhead + length payload) rest)))"
proof -
  let ?o = "pos_offset pos + hashSize"
  let ?marked = "content [?o := Deleted]"
  let ?B' = "snd (Delete E None B h)"
  let ?after = "case PunchHole E ?marked (pos_offset pos + Overhead) (pos_size pos) of
                  None \<Rightarrow> ?marked | Some punched \<Rightarrow> punched"
  have d: "disk ?B' = AList.update (pos_n pos) ?after (disk B)"
    using inv k ix dk rg by (rule Delete_disk)
  have c1: "Deleted = 1" by (simp add: Deleted_def)
  have c2: "hashSize = 32" by (simp add: hashSize_def)
  have c3: "?marked ! ?o = 1" using rg by (simp add: Deleted_def)
  have "(1 :: byte) AND Compressed = 0" by (simp add: Compressed_def)
  then have c4: "?marked ! ?o AND Compressed = 0" unfolding c3 .
  have c5: "length ?marked = length content" by simp
  have c6: "\<forall>i. i \<noteq> ?o \<longrightarrow> ?marked ! i = content ! i" by simp
  have c7: "map_of (disk ?B') (pos_n pos) = Some ?after"
    unfolding d by (simp add: update_conv')
  have c8: "\<forall>j. j \<noteq> pos_n pos \<longrightarrow> map_of (disk ?B') j = map_of (disk B) j"
    unfolding d by (simp add: update_conv')
  have first: "let marked = ?marked; B' = ?B'
      in Deleted = 1 \<and> hashSize = 32 \<and>
         marked ! (pos_offset pos + hashSize) = 1 \<and>
         marked ! (pos_offset pos + hashSize) AND Compressed = 0 \<and>
         length marked = length content \<and>
         (\<forall>i. i \<noteq> pos_offset pos + hashSize \<longrightarrow> marked ! i = content ! i) \<and>
         map_of (disk B') (pos_n pos) =
           Some (case PunchHole E marked (pos_offset pos + Overhead) (pos_size pos) of
                   None \<Rightarrow> marked | Some punched \<Rightarrow> punched) \<and>
         (\<forall>j. j \<noteq> pos_n pos \<longrightarrow> map_of (disk B') j = map_of (disk B) j)"
    unfolding Let_def using c1 c2 c3 c4 c5 c6 c7 c8 by (intro conjI)
  show ?thesis
    using first scan_frames_frame [OF hl pl, of E c n off flags rest] by (rule conjI)
qed

lemma Delete_store1: "Delete standin None store1 hash1 = (Return (), storeD)"
  by (simp add: Delete_def GetPos_def hex_decode_hash1 Delete_handle_def DeletePos_def
      store0_def store1_def storeD_def Let_def formatKey_def key1_def standin_simps pwrite_def
      db_delete_def length_magic frame1_def hashSize_def Deleted_def)

theorem Delete_writes_flags_byte_witness:
  "store_inv store1 \<and> hex_decode hash1 = Some (tl key1) \<and>
   map_of (db (index store1)) (formatKey (BlobPosKey standin) (tl key1))
     = Some \<lparr>pos_n = 0, pos_offset = 6, pos_size = 3\<rparr> \<and>
   map_of (disk store1) 0 = Some (magic @ frame1) \<and>
   Delete standin None store1 hash1 = (Return (), storeD) \<and>
   map_of (disk storeD) 0 = Some ((magic @ frame1) [6 + 32 := 1]) \<and>
   frame1 ! 32 = 0 \<and>
   scan_frames standin False 0 6 (tl key1 @ [1] @ PutUint32 (length blob1) @ blob1 @ [])
     = ([], Return ())"
proof -
  let ?pos = "\<lparr>pos_n = 0, pos_offset = 6, pos_size = 3\<rparr>"
  have inv: "store_inv store1" by (simp add: store_inv_def store1_def store0_def)
  have ix: "map_of (db (index store1)) (formatKey (BlobPosKey standin) (tl key1)) = Some ?pos"
    by (simp add: store1_def store0_def standin_simps formatKey_def key1_def)
  have dk: "map_of (disk store1) (pos_n ?pos) = Some (magic @ frame1)"
    by (simp add: store1_def store0_def)
  have rg: "pos_offset ?pos + hashSize < length (magic @ frame1)"
    by (simp add: hashSize_def length_magic frame1_def)
  have hl: "length (tl key1) = 32" by (simp add: key1_def)
  have pl: "length blob1 < 2 ^ 32" by (simp add: blob1_def)
  note T = Delete_writes_flags_byte [OF inv hex_decode_hash1 ix dk rg hl pl,
      of False 0 6 1 "[]", unfolded Let_def]
  have p: "PunchHole standin ((magic @ frame1) [pos_offset ?pos + hashSize := Deleted])
             (pos_offset ?pos + Overhead) (pos_size ?pos)
           = Some ((magic @ frame1) [pos_offset ?pos + hashSize := Deleted])"
    by (simp add: standin_simps)
  have "map_of (disk (snd (Delete standin None store1 hash1))) (pos_n ?pos)
          = Some ((magic @ frame1) [pos_offset ?pos + hashSize := Deleted])"
    using T p by simp
  then have m: "map_of (disk storeD) 0 = Some ((magic @ frame1) [6 + 32 := 1])"
    by (simp add: Delete_store1 hashSize_def Deleted_def)
  have e: "scan_frames standin False 0 (6 + Overhead + length blob1) [] = ([], Return ())"
    by (subst scan_frames.simps) simp
  have "scan_frames standin False 0 6 (tl key1 @ [1] @ PutUint32 (length blob1) @ blob1 @ [])
      = scan_frames standin False 0 (6 + Overhead + length blob1) []"
    using T by (simp add: Deleted_def)
  then have s: "scan_frames standin False 0 6
                  (tl key1 @ [1] @ PutUint32 (length blob1) @ blob1 @ []) = ([], Return ())"
    using e by simp
  have f: "frame1 ! 32 = 0" by (simp add: frame1_def)
  show ?thesis
    using inv hex_decode_hash1 ix dk Delete_store1 m s f by simp
qed

end
